theory Spec2Isabelle
  imports Main "HOL-Library.Char_ord" "HOL-Library.List_Lexorder" "HOL-Library.Multiset"
begin

section \<open>Library layer: paths, integers as text, dates, the filesystem\<close>

text \<open>
  \<^verbatim>\<open>file_renamer.py\<close> is written against \<^verbatim>\<open>pathlib\<close>, \<^verbatim>\<open>str\<close>, \<^verbatim>\<open>re\<close>, \<^verbatim>\<open>datetime\<close> and
  the operating system.  This section fixes the part of those libraries the program relies on,
  as CPython 3.11 has it on a POSIX system.

  A \<open>string\<close> is a name as the operating system holds it, a sequence of bytes.  Python sees
  its decoding under the filesystem encoding with the \<^verbatim>\<open>surrogateescape\<close> handler, which the
  environment supplies as \<open>fsdecode\<close>.  Concatenation, cutting at an ASCII character and
  equality of decoded names are the same on both sides, and are done here on the bytes;
  comparison for order is not, and is done on the decoded code points.  A Python string that
  is not the decoding of its own encoding (undecodable bytes joined so that they form a valid
  sequence) is outside the model.

  Paths follow \<^verbatim>\<open>PurePosixPath\<close>: a root (\<^verbatim>\<open>''\<close>, \<^verbatim>\<open>'/'\<close> or \<^verbatim>\<open>'//'\<close>) and the list of
  components, from which empty components and \<^verbatim>\<open>'.'\<close> have been dropped; \<^verbatim>\<open>'..'\<close> is kept as
  it is, since pathlib never collapses it.
\<close>

datatype path = Path (path_root: string) (path_parts: "string list")

fun split_on :: "char \<Rightarrow> string \<Rightarrow> string list" where
  "split_on c [] = [[]]"
| "split_on c (x # xs) =
     (if x = c then [] # split_on c xs
      else (case split_on c xs of
              [] \<Rightarrow> [[x]]
            | y # ys \<Rightarrow> (x # y) # ys))"

definition parse_parts :: "string \<Rightarrow> string list" where
  "parse_parts s = filter (\<lambda>c. c \<noteq> [] \<and> c \<noteq> ''.'') (split_on CHR ''/'' s)"

definition parse_root :: "string \<Rightarrow> string" where
  "parse_root s =
     (if take 2 s = ''//'' \<and> take 3 s \<noteq> ''///'' then ''//''
      else if take 1 s = ''/'' then ''/''
      else [])"

definition path_of :: "string \<Rightarrow> path" where
  "path_of s = Path (parse_root s) (parse_parts s)"

text \<open>\<^verbatim>\<open>p / key\<close>: an absolute \<open>key\<close> replaces \<open>p\<close>, any other one is parsed and appended.\<close>

definition joinpath :: "path \<Rightarrow> string \<Rightarrow> path" where
  "joinpath p key =
     (if take 1 key = ''/'' then path_of key
      else Path (path_root p) (path_parts p @ parse_parts key))"

definition parent :: "path \<Rightarrow> path" where
  "parent p = (if path_parts p = [] then p else Path (path_root p) (butlast (path_parts p)))"

definition path_name :: "path \<Rightarrow> string" where
  "path_name p = (if path_parts p = [] then [] else last (path_parts p))"

text \<open>\<^verbatim>\<open>str.rfind\<close>: the highest index holding \<open>c\<close>, or \<open>-1\<close>.\<close>

definition rfind :: "char \<Rightarrow> string \<Rightarrow> int" where
  "rfind c s =
     (case filter (\<lambda>i. s ! i = c) (rev [0..<length s]) of
        [] \<Rightarrow> - 1
      | i # _ \<Rightarrow> int i)"

text \<open>
  \<^verbatim>\<open>PurePath.suffix\<close> and \<^verbatim>\<open>PurePath.stem\<close>: the name is cut at its last dot, unless that dot
  is the first or the last character.
\<close>

definition path_suffix :: "path \<Rightarrow> string" where
  "path_suffix p =
     (let name = path_name p; i = rfind CHR ''.'' name
      in if 0 < i \<and> i < int (length name) - 1 then drop (nat i) name else [])"

definition path_stem :: "path \<Rightarrow> string" where
  "path_stem p =
     (let name = path_name p; i = rfind CHR ''.'' name
      in if 0 < i \<and> i < int (length name) - 1 then take (nat i) name else name)"

text \<open>\<^verbatim>\<open>str(path)\<close>.\<close>

fun intercalate :: "string \<Rightarrow> string list \<Rightarrow> string" where
  "intercalate sep [] = []"
| "intercalate sep [x] = x"
| "intercalate sep (x # y # ys) = x @ sep @ intercalate sep (y # ys)"

definition path_str :: "path \<Rightarrow> string" where
  "path_str p =
     (if path_root p = [] \<and> path_parts p = [] then ''.''
      else path_root p @ intercalate ''/'' (path_parts p))"

text \<open>
  The parts pathlib compares two paths by: the components, after the root when there is one.
  (The paths of one directory walk share their root.)
\<close>

definition cparts :: "path \<Rightarrow> string list" where
  "cparts p = (if path_root p = [] then [] else [path_root p]) @ path_parts p"

text \<open>A path the parser can have produced: no component is empty, \<^verbatim>\<open>'.'\<close>, or holds a separator.\<close>

definition wf_path :: "path \<Rightarrow> bool" where
  "wf_path p = list_all (\<lambda>c. c \<noteq> [] \<and> c \<noteq> ''.'' \<and> CHR ''/'' \<notin> set c) (path_parts p)"

text \<open>
  The exceptions the program can meet.  None of them is caught in \<^verbatim>\<open>rename_files\<close> or below,
  so each one ends the run.
\<close>

datatype error =
    ReError
  | FileNotFoundError
  | NotADirectoryError
  | IsADirectoryError
  | OSError
  | ValueError
  | OverflowError
  | MemoryError
  | NotImplementedError
  | IndexError

text \<open>
  The filesystem maps a path to what \<^verbatim>\<open>stat\<close> reports there, a symbolic link being followed
  as \<^verbatim>\<open>exists\<close>, \<^verbatim>\<open>is_file\<close> and \<^verbatim>\<open>is_dir\<close> follow it: a link to a directory is reported as a
  directory, a dangling link as nothing.  A timestamp is the number the system reports, which
  the model only hands on.  \<open>st_birthtime\<close> is \<open>None\<close> on a platform whose \<^verbatim>\<open>stat_result\<close> has
  no such attribute.  An object is identified with its lexical path: a second name of the same
  object (a hard link, a link to it, a path through \<^verbatim>\<open>'..'\<close>), permissions, and the limits on
  the length of a name (\<^verbatim>\<open>Path.exists\<close> raises \<^verbatim>\<open>OSError\<close> beyond them) are outside the model.
\<close>

datatype kind = RegularFile | Directory

record stat_result =
  st_kind :: kind
  st_mtime :: int
  st_ctime :: int
  st_birthtime :: "int option"

type_synonym filesystem = "path \<rightharpoonup> stat_result"

definition exists :: "filesystem \<Rightarrow> path \<Rightarrow> bool" where
  "exists fs p = (fs p \<noteq> None)"

definition is_file :: "filesystem \<Rightarrow> path \<Rightarrow> bool" where
  "is_file fs p = (case fs p of None \<Rightarrow> False | Some st \<Rightarrow> st_kind st = RegularFile)"

definition is_dir :: "filesystem \<Rightarrow> path \<Rightarrow> bool" where
  "is_dir fs p = (case fs p of None \<Rightarrow> False | Some st \<Rightarrow> st_kind st = Directory)"

definition is_under :: "path \<Rightarrow> path \<Rightarrow> bool" where
  "is_under d p =
     (path_root p = path_root d \<and> length (path_parts d) < length (path_parts p)
      \<and> take (length (path_parts d)) (path_parts p) = path_parts d)"

definition reroot :: "path \<Rightarrow> path \<Rightarrow> path \<Rightarrow> path" where
  "reroot src dst p = Path (path_root dst) (path_parts dst @ drop (length (path_parts src)) (path_parts p))"

text \<open>
  \<^verbatim>\<open>Path.rename\<close>, that is POSIX \<^verbatim>\<open>rename(2)\<close>: the source must exist and the target's directory
  must be a directory; a regular file silently replaces an existing regular file; a directory
  moves with everything below it, not into itself and not onto a directory that holds something.
\<close>

definition rename :: "filesystem \<Rightarrow> path \<Rightarrow> path \<Rightarrow> error + filesystem" where
  "rename fs src dst =
     (case fs src of
        None \<Rightarrow> Inl FileNotFoundError
      | Some st \<Rightarrow>
          if src = dst then Inr fs
          else if \<not> exists fs (parent dst) then Inl FileNotFoundError
          else if \<not> is_dir fs (parent dst) then Inl NotADirectoryError
          else if st_kind st = RegularFile then
            (if is_dir fs dst then Inl IsADirectoryError
             else Inr (fs(src := None, dst \<mapsto> st)))
          else if is_under src dst then Inl OSError
          else if is_file fs dst then Inl NotADirectoryError
          else if \<exists>q. is_under dst q \<and> fs q \<noteq> None then Inl OSError
          else Inr (\<lambda>p. if p = dst then Some st
                         else if is_under dst p then fs (reroot dst src p)
                         else if p = src \<or> is_under src p then None
                         else fs p))"

text \<open>\<^verbatim>\<open>PurePath.relative_to\<close>, which raises \<^verbatim>\<open>ValueError\<close> when \<open>other\<close> does not lead to \<open>p\<close>.\<close>

definition relative_to :: "path \<Rightarrow> path \<Rightarrow> error + path" where
  "relative_to p other =
     (if path_root p = path_root other
         \<and> take (length (path_parts other)) (path_parts p) = path_parts other
      then Inr (Path [] (drop (length (path_parts other)) (path_parts p)))
      else Inl ValueError)"

text \<open>
  What the program takes from its environment and cannot be written down here:
  \<^item> \<open>re_sub\<close>: the regular expression engine, \<^verbatim>\<open>re.sub\<close> with its default count, which raises
    \<^verbatim>\<open>re.error\<close> on a bad pattern;
  \<^item> \<open>localtime\<close>: the conversion of a timestamp to the local calendar (year, month, day) by
    the C library, which can fail (\<^verbatim>\<open>OSError\<close>, \<^verbatim>\<open>OverflowError\<close>);
  \<^item> \<open>pad_year\<close>: whether the C library's \<^verbatim>\<open>strftime\<close> fills \<^verbatim>\<open>%Y\<close> with zeros to four digits
    (glibc does not);
  \<^item> \<open>glob\<close>, \<open>rglob\<close>: the two directory walks of pathlib for a pattern they accept; they
    can raise too (\<^verbatim>\<open>ValueError\<close> for a misplaced \<^verbatim>\<open>**\<close>, \<^verbatim>\<open>IndexError\<close> for the pattern
    \<^verbatim>\<open>'.'\<close>);
  \<^item> \<open>fsdecode\<close>: the code points of a name, see above;
  \<^item> \<open>int_max_str_digits\<close>: the limit \<^verbatim>\<open>sys.int_max_str_digits\<close> (4300 unless changed, \<open>0\<close> for
    none), \<open>ssize_t_max\<close>: the largest \<^verbatim>\<open>Py_ssize_t\<close>, and \<open>alloc_limit\<close>: the length of the
    longest string the interpreter can allocate.
\<close>

record environment =
  re_sub :: "string \<Rightarrow> string \<Rightarrow> string \<Rightarrow> error + string"
  localtime :: "int \<Rightarrow> error + int \<times> nat \<times> nat"
  pad_year :: bool
  glob :: "filesystem \<Rightarrow> path \<Rightarrow> string \<Rightarrow> error + path list"
  rglob :: "filesystem \<Rightarrow> path \<Rightarrow> string \<Rightarrow> error + path list"
  fsdecode :: "string \<Rightarrow> nat list"
  int_max_str_digits :: nat
  ssize_t_max :: int
  alloc_limit :: nat

text \<open>
  \<^verbatim>\<open>Path.glob\<close> refuses the empty pattern and, like \<^verbatim>\<open>Path.rglob\<close>, a pattern that begins at a
  root, before any directory is read.
\<close>

definition path_glob :: "environment \<Rightarrow> filesystem \<Rightarrow> path \<Rightarrow> string \<Rightarrow> error + path list" where
  "path_glob env fs p pat =
     (if pat = [] then Inl ValueError
      else if take 1 pat = ''/'' then Inl NotImplementedError
      else glob env fs p pat)"

definition path_rglob :: "environment \<Rightarrow> filesystem \<Rightarrow> path \<Rightarrow> string \<Rightarrow> error + path list" where
  "path_rglob env fs p pat =
     (if take 1 pat = ''/'' then Inl NotImplementedError
      else rglob env fs p pat)"

text \<open>The key \<^verbatim>\<open>sorted\<close> compares two paths by: their parts, each as code points.\<close>

definition path_key :: "environment \<Rightarrow> path \<Rightarrow> nat list list" where
  "path_key env p = map (fsdecode env) (cparts p)"

text \<open>
  The decimal digits of a number, and \<^verbatim>\<open>str(n)\<close> for a Python integer, which raises
  \<^verbatim>\<open>ValueError\<close> when \<open>n\<close> has more digits than the limit, that is from \<open>10 ^ limit\<close> on.
\<close>

definition digit :: "nat \<Rightarrow> char" where
  "digit d = ''0123456789'' ! d"

fun str_nat :: "nat \<Rightarrow> string" where
  "str_nat n = (if n < 10 then [digit n] else str_nat (n div 10) @ [digit (n mod 10)])"

declare str_nat.simps [simp del]

definition decimal :: "int \<Rightarrow> string" where
  "decimal n = (if n < 0 then CHR ''-'' # str_nat (nat (- n)) else str_nat (nat n))"

definition str_int :: "environment \<Rightarrow> int \<Rightarrow> error + string" where
  "str_int env n =
     (if 0 < int_max_str_digits env \<and> 10 ^ int_max_str_digits env \<le> \<bar>n\<bar> then Inl ValueError
      else Inr (decimal n))"

text \<open>
  \<^verbatim>\<open>str.zfill\<close>: the width must fit a \<^verbatim>\<open>Py_ssize_t\<close>; a string that is long enough is returned
  as it is; otherwise a string of the width is allocated and filled, the zeros going after a
  leading sign.
\<close>

definition zfill :: "environment \<Rightarrow> string \<Rightarrow> int \<Rightarrow> error + string" where
  "zfill env s width =
     (if width < - ssize_t_max env - 1 \<or> ssize_t_max env < width then Inl OverflowError
      else if width \<le> int (length s) then Inr s
      else if alloc_limit env < nat width then Inl MemoryError
      else (let fill = nat (width - int (length s))
            in case s of
                 [] \<Rightarrow> Inr (replicate fill CHR ''0'')
               | c # cs \<Rightarrow>
                   if c = CHR ''+'' \<or> c = CHR ''-'' then Inr (c # replicate fill CHR ''0'' @ cs)
                   else Inr (replicate fill CHR ''0'' @ s)))"

text \<open>
  \<^verbatim>\<open>datetime.fromtimestamp\<close>: the local calendar date of the C library, made into a
  \<^verbatim>\<open>datetime\<close>, whose constructor raises \<^verbatim>\<open>ValueError\<close> for a year outside 1 to 9999 (and for
  a month or a day that does not exist).
\<close>

definition is_leap :: "nat \<Rightarrow> bool" where
  "is_leap y = (y mod 4 = 0 \<and> (y mod 100 \<noteq> 0 \<or> y mod 400 = 0))"

definition days_in_month :: "nat \<Rightarrow> nat \<Rightarrow> nat" where
  "days_in_month y m =
     (if m = 2 then (if is_leap y then 29 else 28)
      else if m = 4 \<or> m = 6 \<or> m = 9 \<or> m = 11 then 30
      else 31)"

definition fromtimestamp :: "environment \<Rightarrow> int \<Rightarrow> error + nat \<times> nat \<times> nat" where
  "fromtimestamp env t =
     (case localtime env t of
        Inl e \<Rightarrow> Inl e
      | Inr (y, m, d) \<Rightarrow>
          if 1 \<le> y \<and> y \<le> 9999 \<and> 1 \<le> m \<and> m \<le> 12 \<and> 1 \<le> d \<and> d \<le> days_in_month (nat y) m
          then Inr (nat y, m, d)
          else Inl ValueError)"

text \<open>
  \<^verbatim>\<open>strftime("%Y%m%d")\<close>: the C library writes month and day with two digits, and the year
  with four only if it fills \<^verbatim>\<open>%Y\<close>.
\<close>

definition pad0 :: "nat \<Rightarrow> string \<Rightarrow> string" where
  "pad0 w s = replicate (w - length s) CHR ''0'' @ s"

definition strftime_Ymd :: "environment \<Rightarrow> nat \<times> nat \<times> nat \<Rightarrow> string" where
  "strftime_Ymd env date =
     (case date of (y, m, d) \<Rightarrow>
        (if pad_year env then pad0 4 (str_nat y) else str_nat y)
        @ pad0 2 (str_nat m) @ pad0 2 (str_nat d))"

section \<open>The program\<close>

text \<open>
  The keyword arguments of \<^verbatim>\<open>rename_files\<close>, which are the fields of the parsed command
  line, travel as one record; \<^verbatim>\<open>generate_new_name\<close> reads from it the ones it is passed.
\<close>

record options =
  prefix :: string
  suffix :: string
  search :: "string option"
  replace :: "string option"
  numbering :: bool
  number_mode :: string
  number_start :: int
  number_padding :: int
  date_type :: "string option"
  date_position :: string
  file_pattern :: string
  recursive :: bool
  execute :: bool

text \<open>\<open>now\<close> is the reading of the wall clock at the moment of the call.\<close>

definition get_file_date :: "environment \<Rightarrow> filesystem \<Rightarrow> int \<Rightarrow> path \<Rightarrow> string \<Rightarrow> error + string" where
  "get_file_date env fs now file_path dt =
     (case (if dt = ''modified'' then
              (case fs file_path of
                 None \<Rightarrow> Inl FileNotFoundError
               | Some stat_info \<Rightarrow> Inr (st_mtime stat_info))
            else if dt = ''created'' then
              (case fs file_path of
                 None \<Rightarrow> Inl FileNotFoundError
               | Some stat_info \<Rightarrow>
                   (case st_birthtime stat_info of
                      Some birthtime \<Rightarrow> Inr birthtime
                    | None \<Rightarrow> Inr (st_ctime stat_info)))
            else Inr now) of
        Inl e \<Rightarrow> Inl e
      | Inr timestamp \<Rightarrow>
          (case fromtimestamp env timestamp of
             Inl e \<Rightarrow> Inl e
           | Inr date \<Rightarrow> Inr (strftime_Ymd env date)))"

text \<open>Line 86, \<^verbatim>\<open>num_str = str(number).zfill(number_padding)\<close>.\<close>

definition num_str :: "environment \<Rightarrow> int \<Rightarrow> int \<Rightarrow> error + string" where
  "num_str env number padding =
     (case str_int env number of
        Inl e \<Rightarrow> Inl e
      | Inr s \<Rightarrow> zfill env s padding)"

definition generate_new_name ::
  "environment \<Rightarrow> filesystem \<Rightarrow> int \<Rightarrow> path \<Rightarrow> options \<Rightarrow> int option \<Rightarrow> error + string" where
  "generate_new_name env fs now file_path opts number =
     (let stem = path_stem file_path;
          ext = path_suffix file_path
      in case (case (search opts, replace opts) of
                 (Some pat, Some repl) \<Rightarrow> re_sub env pat repl stem
               | _ \<Rightarrow> Inr stem) of
           Inl e \<Rightarrow> Inl e
         | Inr stem \<Rightarrow>
            (let stem = (if prefix opts \<noteq> [] then prefix opts @ stem else stem);
                 stem = (if suffix opts \<noteq> [] then stem @ suffix opts else stem)
             in case (case number of
                        None \<Rightarrow> Inr stem
                      | Some n \<Rightarrow>
                          (case num_str env n (number_padding opts) of
                             Inl e \<Rightarrow> Inl e
                           | Inr num \<Rightarrow>
                               Inr (if number_mode opts = ''sequential'' then num
                                    else stem @ ''_'' @ num))) of
                  Inl e \<Rightarrow> Inl e
                | Inr stem \<Rightarrow>
                    (case date_type opts of
                       None \<Rightarrow> Inr (stem @ ext)
                     | Some dt \<Rightarrow>
                         if dt = [] then Inr (stem @ ext)
                         else (case get_file_date env fs now file_path dt of
                                 Inl e \<Rightarrow> Inl e
                               | Inr date_str \<Rightarrow>
                                   Inr ((if date_position opts = ''prefix''
                                         then date_str @ ''_'' @ stem
                                         else stem @ ''_'' @ date_str) @ ext)))))"

definition collect_files ::
  "environment \<Rightarrow> filesystem \<Rightarrow> path \<Rightarrow> string \<Rightarrow> bool \<Rightarrow> error + path list" where
  "collect_files env fs root_path pat rec =
     (case (if rec then path_rglob env fs root_path pat else path_glob env fs root_path pat) of
        Inl e \<Rightarrow> Inl e
      | Inr files \<Rightarrow> Inr (sort_key (path_key env) (filter (is_file fs) files)))"

text \<open>
  The variables of the loop of \<^verbatim>\<open>rename_files\<close>, and the filesystem it acts on.  The
  progress bar is not modelled.
\<close>

record run_state =
  renames :: "(path \<times> path) list"
  counter :: int
  warnings :: "string list"
  fsys :: filesystem

definition advance :: "options \<Rightarrow> run_state \<Rightarrow> run_state" where
  "advance opts st = (if numbering opts then st\<lparr>counter := counter st + 1\<rparr> else st)"

text \<open>One turn of the loop.  The \<^verbatim>\<open>continue\<close> of the conflict branch leaves before the counter moves.\<close>

definition rename_step :: "environment \<Rightarrow> int \<Rightarrow> options \<Rightarrow> run_state \<Rightarrow> path \<Rightarrow> error + run_state" where
  "rename_step env now opts st file_path =
     (let number = (if numbering opts then Some (counter st) else None)
      in case generate_new_name env (fsys st) now file_path opts number of
           Inl e \<Rightarrow> Inl e
         | Inr new_name \<Rightarrow>
            (let new_path = joinpath (parent file_path) new_name
             in if new_path \<noteq> file_path then
                  (let st1 = st\<lparr>renames := renames st @ [(file_path, new_path)]\<rparr>
                   in if execute opts then
                        (if exists (fsys st1) new_path \<and> new_path \<noteq> file_path then
                           Inr (st1\<lparr>warnings := warnings st1 @
                                  [''Skipping '' @ path_name file_path @ '' - target exists: '' @ new_name]\<rparr>)
                         else (case rename (fsys st1) file_path new_path of
                                 Inl e \<Rightarrow> Inl e
                               | Inr fs' \<Rightarrow> Inr (advance opts (st1\<lparr>fsys := fs'\<rparr>))))
                      else Inr (advance opts st1))
                else Inr (advance opts st)))"

text \<open>The loop; \<open>clock i\<close> is the wall clock while the \<open>i\<close>-th file is processed.\<close>

fun rename_loop ::
  "environment \<Rightarrow> (nat \<Rightarrow> int) \<Rightarrow> options \<Rightarrow> nat \<Rightarrow> run_state \<Rightarrow> path list \<Rightarrow> error + run_state" where
  "rename_loop env clock opts i st [] = Inr st"
| "rename_loop env clock opts i st (file_path # files) =
     (case rename_step env (clock i) opts st file_path of
        Inl e \<Rightarrow> Inl e
      | Inr st' \<Rightarrow> rename_loop env clock opts (Suc i) st' files)"

definition initial_state :: "options \<Rightarrow> filesystem \<Rightarrow> run_state" where
  "initial_state opts fs = \<lparr>renames = [], counter = number_start opts, warnings = [], fsys = fs\<rparr>"

text \<open>
  \<^verbatim>\<open>rename_files\<close>: of the final state, \<open>renames\<close> is the list returned, \<open>warnings\<close> the lines
  printed after \<^verbatim>\<open>WARNING: \<close>, and \<open>fsys\<close> the filesystem left behind.
\<close>

definition rename_files ::
  "environment \<Rightarrow> (nat \<Rightarrow> int) \<Rightarrow> filesystem \<Rightarrow> path \<Rightarrow> options \<Rightarrow> error + run_state" where
  "rename_files env clock fs root_path opts =
     (case collect_files env fs root_path (file_pattern opts) (recursive opts) of
        Inl e \<Rightarrow> Inl e
      | Inr files \<Rightarrow> rename_loop env clock opts 1 (initial_state opts fs) files)"

text \<open>What \<^verbatim>\<open>main\<close> prints, line by line, once \<^verbatim>\<open>rename_files\<close> has returned.\<close>

definition report_entry :: "path \<Rightarrow> path \<times> path \<Rightarrow> string list" where
  "report_entry root_path e =
     (case e of (old_path, new_path) \<Rightarrow>
        (let old_rel = (case relative_to old_path root_path of Inr r \<Rightarrow> r | Inl _ \<Rightarrow> old_path);
             new_name = path_name new_path
         in [path_str old_rel, ''  -> '' @ new_name, []]))"

definition report :: "options \<Rightarrow> path \<Rightarrow> (path \<times> path) list \<Rightarrow> string list" where
  "report opts root_path rs =
     (if rs = [] then [''No files to rename.'']
      else [[], (if execute opts then ''RENAMED'' else ''PREVIEW (use --execute to apply)''),
            replicate 60 CHR ''='']
           @ concat (map (report_entry root_path) rs)
           @ [''Total: '' @ str_nat (length rs) @ '' file(s)'']
           @ (if \<not> execute opts then [[], ''This was a dry-run. Add --execute to perform the actual rename.'']
              else []))"

section \<open>The specification's vocabulary\<close>

text \<open>
  The five transformations of the naming rule, each written as the specification words it,
  and their composition in the order the specification fixes.
\<close>

definition step_search :: "environment \<Rightarrow> options \<Rightarrow> string \<Rightarrow> error + string" where
  "step_search env opts s =
     (case search opts of
        None \<Rightarrow> Inr s
      | Some pat \<Rightarrow> (case replace opts of None \<Rightarrow> Inr s | Some repl \<Rightarrow> re_sub env pat repl s))"

definition step_prefix :: "options \<Rightarrow> string \<Rightarrow> string" where
  "step_prefix opts s = (if prefix opts = [] then s else prefix opts @ s)"

definition step_suffix :: "options \<Rightarrow> string \<Rightarrow> string" where
  "step_suffix opts s = (if suffix opts = [] then s else s @ suffix opts)"

text \<open>
  Padding as the specification words it (zeros to the left of the decimal representation),
  and with the sign kept in front (zeros between the minus sign and the digits of a negative
  number).
\<close>

definition left_pad :: "int \<Rightarrow> int \<Rightarrow> string" where
  "left_pad n w = replicate (nat (w - int (length (decimal n)))) CHR ''0'' @ decimal n"

definition sign_pad :: "int \<Rightarrow> int \<Rightarrow> string" where
  "sign_pad n w =
     (if n < 0 then CHR ''-'' # replicate (nat (w - int (length (decimal n)))) CHR ''0'' @ str_nat (nat (- n))
      else left_pad n w)"

text \<open>
  The zero-padded counter, with the three ways the interpreter can refuse to make it: the
  counter has more digits than the limit on conversions, the width is no \<^verbatim>\<open>Py_ssize_t\<close>, or
  the padded string is longer than what can be allocated.
\<close>

definition counter_text :: "environment \<Rightarrow> int \<Rightarrow> int \<Rightarrow> error + string" where
  "counter_text env n w =
     (if 0 < int_max_str_digits env \<and> 10 ^ int_max_str_digits env \<le> \<bar>n\<bar> then Inl ValueError
      else if w < - ssize_t_max env - 1 \<or> ssize_t_max env < w then Inl OverflowError
      else if int (length (decimal n)) < w \<and> alloc_limit env < nat w then Inl MemoryError
      else Inr (sign_pad n w))"

definition configured_number :: "environment \<Rightarrow> options \<Rightarrow> int option \<Rightarrow> error + string option" where
  "configured_number env opts number =
     (case number of
        None \<Rightarrow> Inr None
      | Some n \<Rightarrow>
          (case counter_text env n (number_padding opts) of
             Inl e \<Rightarrow> Inl e
           | Inr t \<Rightarrow> Inr (Some t)))"

definition step_number :: "options \<Rightarrow> string option \<Rightarrow> string \<Rightarrow> string" where
  "step_number opts num s =
     (case num of
        None \<Rightarrow> s
      | Some t \<Rightarrow> if number_mode opts = ''sequential'' then t else s @ ''_'' @ t)"

text \<open>
  The requested timestamp: the modification time of the file, its creation time (the inode
  change time where no creation time is available), or the current wall-clock time.  The
  file must be there for the first two.
\<close>

definition requested_timestamp :: "filesystem \<Rightarrow> int \<Rightarrow> path \<Rightarrow> string \<Rightarrow> error + int" where
  "requested_timestamp fs now p source =
     (if source = ''modified'' \<or> source = ''created'' then
        (case fs p of
           None \<Rightarrow> Inl FileNotFoundError
         | Some st \<Rightarrow>
             Inr (if source = ''modified'' then st_mtime st
                  else (case st_birthtime st of Some b \<Rightarrow> b | None \<Rightarrow> st_ctime st)))
      else Inr now)"

text \<open>
  \<^verbatim>\<open>YYYYMMDD\<close>: four digits of the year, two of the month, two of the day.  The date string of
  the program is that one from the year 1000 on, and for every year where the C library fills
  the year with zeros; elsewhere the year is written with the digits it has.
\<close>

definition yyyymmdd :: "nat \<times> nat \<times> nat \<Rightarrow> string" where
  "yyyymmdd date =
     (case date of (y, m, d) \<Rightarrow>
        map digit [y div 1000 mod 10, y div 100 mod 10, y div 10 mod 10, y mod 10,
                   m div 10 mod 10, m mod 10, d div 10 mod 10, d mod 10])"

definition date_text :: "environment \<Rightarrow> nat \<times> nat \<times> nat \<Rightarrow> string" where
  "date_text env date =
     (case date of (y, m, d) \<Rightarrow>
        if 1000 \<le> y \<or> pad_year env then yyyymmdd date
        else str_nat y @ map digit [m div 10 mod 10, m mod 10, d div 10 mod 10, d mod 10])"

definition configured_date ::
  "environment \<Rightarrow> filesystem \<Rightarrow> int \<Rightarrow> path \<Rightarrow> options \<Rightarrow> error + string option" where
  "configured_date env fs now p opts =
     (case date_type opts of
        None \<Rightarrow> Inr None
      | Some source \<Rightarrow>
          if source = [] then Inr None
          else (case requested_timestamp fs now p source of
                  Inl e \<Rightarrow> Inl e
                | Inr t \<Rightarrow>
                    (case fromtimestamp env t of
                       Inl e \<Rightarrow> Inl e
                     | Inr date \<Rightarrow> Inr (Some (date_text env date)))))"

definition step_date :: "options \<Rightarrow> string option \<Rightarrow> string \<Rightarrow> string" where
  "step_date opts d s =
     (case d of
        None \<Rightarrow> s
      | Some date_str \<Rightarrow>
          if date_position opts = ''prefix'' then date_str @ ''_'' @ s
          else s @ ''_'' @ date_str)"

definition spec_new_name ::
  "environment \<Rightarrow> filesystem \<Rightarrow> int \<Rightarrow> path \<Rightarrow> options \<Rightarrow> int option \<Rightarrow> error + string" where
  "spec_new_name env fs now p opts number =
     (case step_search env opts (path_stem p) of
        Inl e \<Rightarrow> Inl e
      | Inr s \<Rightarrow>
          (case configured_number env opts number of
             Inl e \<Rightarrow> Inl e
           | Inr num \<Rightarrow>
               (case configured_date env fs now p opts of
                  Inl e \<Rightarrow> Inl e
                | Inr d \<Rightarrow>
                    Inr ((step_date opts d \<circ> step_number opts num \<circ> step_suffix opts \<circ> step_prefix opts) s
                         @ path_suffix p))))"

text \<open>A name that is one path component.\<close>

definition single_component :: "string \<Rightarrow> bool" where
  "single_component s = (s \<noteq> [] \<and> s \<noteq> ''.'' \<and> CHR ''/'' \<notin> set s)"

text \<open>The number handed to \<^verbatim>\<open>generate_new_name\<close> in a given state, and the warning of a skip.\<close>

definition number_for :: "options \<Rightarrow> run_state \<Rightarrow> int option" where
  "number_for opts st = (if numbering opts then Some (counter st) else None)"

definition skip_warning :: "path \<Rightarrow> string \<Rightarrow> string" where
  "skip_warning file_path new_name =
     ''Skipping '' @ path_name file_path @ '' - target exists: '' @ new_name"

text \<open>An entry of the plan as a turn of the loop makes it.\<close>

definition made_by :: "environment \<Rightarrow> options \<Rightarrow> path \<times> path \<Rightarrow> bool" where
  "made_by env opts e =
     (case e of (old, new) \<Rightarrow>
        new \<noteq> old \<and>
        (\<exists>fs now number name. generate_new_name env fs now old opts number = Inr name
                               \<and> new = joinpath (parent old) name))"

text \<open>
  The name computed for the file at position \<open>k\<close> (from \<open>0\<close>) of the collected list when
  every file before it has moved the counter, as the specification describes the numbering.
\<close>

definition planned_name ::
  "environment \<Rightarrow> (nat \<Rightarrow> int) \<Rightarrow> filesystem \<Rightarrow> options \<Rightarrow> path list \<Rightarrow> nat \<Rightarrow> error + string" where
  "planned_name env clock fs opts files k =
     generate_new_name env fs (clock (Suc k)) (files ! k) opts
       (if numbering opts then Some (number_start opts + int k) else None)"

text \<open>The walk of the directory, for either value of the recursive flag.\<close>

definition walk :: "environment \<Rightarrow> filesystem \<Rightarrow> path \<Rightarrow> string \<Rightarrow> bool \<Rightarrow> error + path list" where
  "walk env fs root_path pat rec =
     (if rec then path_rglob env fs root_path pat else path_glob env fs root_path pat)"

section \<open>Sample inputs\<close>

text \<open>
  A regular expression engine for patterns without metacharacters: every occurrence of the
  pattern, scanning from the left and not overlapping, is replaced.
\<close>

fun literal_sub :: "string \<Rightarrow> string \<Rightarrow> string \<Rightarrow> string" where
  "literal_sub pat repl [] = (if pat = [] then repl else [])"
| "literal_sub pat repl (c # cs) =
     (if pat = [] then repl @ c # literal_sub pat repl cs
      else if take (length pat) (c # cs) = pat
           then repl @ literal_sub pat repl (drop (length pat) (c # cs))
      else c # literal_sub pat repl cs)"

text \<open>
  The calendar date of a timestamp in UTC, in the Gregorian calendar extended to all years:
  the days since 1 March 0000 are cut into eras of 400 years, the year of the era and the day
  of that year follow, and the months are counted from March.
\<close>

definition utc_date :: "int \<Rightarrow> int \<times> nat \<times> nat" where
  "utc_date t =
     (let z = t div 86400 + 719468;
          era = z div 146097;
          doe = z - era * 146097;
          yoe = (doe - doe div 1460 + doe div 36524 - doe div 146096) div 365;
          doy = doe - (365 * yoe + yoe div 4 - yoe div 100);
          mp = (5 * doy + 2) div 153;
          d = doy - (153 * mp + 2) div 5 + 1;
          m = (if mp < 10 then mp + 3 else mp - 9)
      in (yoe + era * 400 + (if m \<le> 2 then 1 else 0), nat m, nat d))"

text \<open>
  An environment whose walks yield a given listing, on a 64-bit interpreter with the default
  limit on conversions and a C library that does not fill the year and whose local time is
  UTC.  The names of the samples are ASCII, which every filesystem encoding decodes byte by
  byte.
\<close>

definition env_of :: "path list \<Rightarrow> environment" where
  "env_of listing =
     \<lparr>re_sub = (\<lambda>pat repl s. Inr (literal_sub pat repl s)),
      localtime = (\<lambda>t. Inr (utc_date t)),
      pad_year = False,
      glob = (\<lambda>fs root_path pat. Inr listing),
      rglob = (\<lambda>fs root_path pat. Inr listing),
      fsdecode = map of_char,
      int_max_str_digits = 4300,
      ssize_t_max = 9223372036854775807,
      alloc_limit = 1073741824\<rparr>"

definition file_stat :: stat_result where
  "file_stat = \<lparr>st_kind = RegularFile, st_mtime = 0, st_ctime = 0, st_birthtime = None\<rparr>"

definition dir_stat :: stat_result where
  "dir_stat = \<lparr>st_kind = Directory, st_mtime = 0, st_ctime = 0, st_birthtime = None\<rparr>"

definition fs_with :: "path list \<Rightarrow> path list \<Rightarrow> filesystem" where
  "fs_with dirs files =
     (\<lambda>p. if p \<in> set files then Some file_stat
          else if p \<in> set dirs then Some dir_stat
          else None)"

definition dir_r :: path where
  "dir_r = Path ''/'' [''r'']"

definition in_r :: "string \<Rightarrow> path" where
  "in_r name = Path ''/'' [''r'', name]"

text \<open>The defaults of the command line, with nothing asked for.\<close>

definition no_options :: options where
  "no_options =
     \<lparr>prefix = [], suffix = [], search = None, replace = None, numbering = False,
      number_mode = ''append'', number_start = 1, number_padding = 3, date_type = None,
      date_position = ''prefix'', file_pattern = ''*'', recursive = True, execute = False\<rparr>"

text \<open>
  One file \<^verbatim>\<open>a.txt\<close>, last modified at the start of 1970, and the same last modified at the
  start of 2 January 999.
\<close>

definition fs_one :: filesystem where
  "fs_one = fs_with [dir_r] [in_r ''a.txt'']"

definition fs_999 :: filesystem where
  "fs_999 = fs_one(in_r ''a.txt'' \<mapsto> file_stat\<lparr>st_mtime := - 30641673600\<rparr>)"

definition by_date :: options where
  "by_date = no_options\<lparr>date_type := Some ''modified''\<rparr>"

text \<open>
  Two files of one directory that lose every \<^verbatim>\<open>1\<close> of their names and so get the same new
  name, and the state of an executing run between their two turns.
\<close>

definition fs_two :: filesystem where
  "fs_two = fs_with [dir_r] [in_r ''a1.txt'', in_r ''a11.txt'']"

definition env_two :: environment where
  "env_two = env_of [in_r ''a11.txt'', in_r ''a1.txt'']"

definition strip_ones :: options where
  "strip_ones = no_options\<lparr>search := Some ''1'', replace := Some []\<rparr>"

definition after_first :: run_state where
  "after_first =
     \<lparr>renames = [(in_r ''a1.txt'', in_r ''a.txt'')], counter = 1, warnings = [],
      fsys = fs_two(in_r ''a1.txt'' := None, in_r ''a.txt'' \<mapsto> file_stat)\<rparr>"

text \<open>A file and a second one that already carries the name numbering would give the first.\<close>

definition fs_num :: filesystem where
  "fs_num = fs_with [dir_r] [in_r ''a.txt'', in_r ''a_001.txt'']"

definition env_num :: environment where
  "env_num = env_of [in_r ''a.txt'', in_r ''a_001.txt'']"

definition numbered :: options where
  "numbered = no_options\<lparr>numbering := True\<rparr>"

text \<open>A file \<^verbatim>\<open>a.b\<close> beside a directory \<^verbatim>\<open>a\<close> that holds a file \<^verbatim>\<open>c\<close>.\<close>

definition fs_tree :: filesystem where
  "fs_tree = fs_with [dir_r, in_r ''a''] [in_r ''a.b'', Path ''/'' [''r'', ''a'', ''c'']]"

definition listing_tree :: "path list" where
  "listing_tree = [in_r ''a'', in_r ''a.b'', Path ''/'' [''r'', ''a'', ''c'']]"

section \<open>Facts about the library layer\<close>

lemma stem_suffix_name: "path_stem p @ path_suffix p = path_name p"
  by (simp add: path_stem_def path_suffix_def Let_def)

lemma split_on_no_sep: "c \<notin> set s \<Longrightarrow> split_on c s = [s]"
  by (induction s) auto

lemma parse_parts_Nil: "parse_parts [] = []"
  by (simp add: parse_parts_def)

lemma parse_parts_single: "single_component s \<Longrightarrow> parse_parts s = [s]"
  by (simp add: parse_parts_def split_on_no_sep single_component_def)

lemma take1_no_sep: "CHR ''/'' \<notin> set s \<Longrightarrow> take 1 s \<noteq> ''/''"
  by (cases s) auto

lemma joinpath_single:
  "single_component s \<Longrightarrow> joinpath d s = Path (path_root d) (path_parts d @ [s])"
  using take1_no_sep [of s] by (simp add: joinpath_def parse_parts_single single_component_def)

lemma parent_joinpath_single: "single_component s \<Longrightarrow> parent (joinpath d s) = d"
  by (simp add: joinpath_single parent_def)

lemma joinpath_parent_name: "wf_path p \<Longrightarrow> joinpath (parent p) (path_name p) = p"
proof (cases "path_parts p = []")
  case True
  then show ?thesis
    by (cases p) (simp add: joinpath_def parent_def path_name_def parse_parts_Nil)
next
  case False
  assume wf: "wf_path p"
  from False have "last (path_parts p) \<in> set (path_parts p)" by simp
  with wf have "single_component (last (path_parts p))"
    by (auto simp: wf_path_def list_all_iff single_component_def)
  with False show ?thesis
    by (cases p) (simp add: joinpath_single parent_def path_name_def)
qed

text \<open>When a relative name keeps the directory: exactly when it is one component.\<close>

lemma parent_joinpath_relative:
  assumes "take 1 name \<noteq> ''/''"
  shows "parent (joinpath d name) = d
         \<longleftrightarrow> length (parse_parts name) = 1 \<or> parse_parts name = [] \<and> path_parts d = []"
proof (cases "parse_parts name = []")
  case True
  have "butlast xs = xs \<longleftrightarrow> xs = []" for xs :: "string list"
    by (cases xs rule: rev_cases) auto
  with True assms show ?thesis
    by (cases d) (auto simp: joinpath_def parent_def)
next
  case False
  then have "butlast (path_parts d @ parse_parts name) = path_parts d @ butlast (parse_parts name)"
    by (simp add: butlast_append)
  moreover have "butlast (parse_parts name) = [] \<longleftrightarrow> length (parse_parts name) = 1"
    using False by (cases "parse_parts name") auto
  ultimately show ?thesis
    using assms False by (cases d) (simp add: joinpath_def parent_def)
qed

lemma digit_not_sign: "d < 10 \<Longrightarrow> digit d \<noteq> CHR ''+'' \<and> digit d \<noteq> CHR ''-''"
proof -
  assume "d < 10"
  then have "d \<in> {0, 1, 2, 3, 4, 5, 6, 7, 8, 9}" by auto
  then show ?thesis by (auto simp: digit_def)
qed

lemma str_nat_not_Nil: "str_nat n \<noteq> []"
  by (subst str_nat.simps) simp

lemma hd_str_nat: "hd (str_nat n) \<noteq> CHR ''+'' \<and> hd (str_nat n) \<noteq> CHR ''-''"
proof (induction n rule: str_nat.induct)
  case (1 n)
  show ?case
  proof (cases "n < 10")
    case True
    then show ?thesis by (subst (1 2) str_nat.simps) (simp add: digit_not_sign)
  next
    case False
    with 1 show ?thesis
      by (subst (1 2) str_nat.simps) (simp add: str_nat_not_Nil)
  qed
qed

text \<open>The limit on conversions counts digits.\<close>

lemma length_str_nat_Suc: "10 \<le> n \<Longrightarrow> length (str_nat n) = Suc (length (str_nat (n div 10)))"
  by (subst str_nat.simps) simp

lemma length_str_nat_small: "n < 10 \<Longrightarrow> length (str_nat n) = 1"
  by (subst str_nat.simps) simp

lemma digits_exceed: "0 < k \<Longrightarrow> 10 ^ k \<le> n \<longleftrightarrow> k < length (str_nat n)"
proof (induction k arbitrary: n)
  case 0
  then show ?case by simp
next
  case (Suc k)
  show ?case
  proof (cases "n < 10")
    case True
    have "(1::nat) \<le> 10 ^ k" by simp
    with True have "n < 10 * 10 ^ k" by linarith
    with True show ?thesis by (simp add: length_str_nat_small)
  next
    case False
    then have len: "length (str_nat n) = Suc (length (str_nat (n div 10)))"
      by (simp add: length_str_nat_Suc)
    have div: "10 ^ Suc k \<le> n \<longleftrightarrow> 10 ^ k \<le> n div 10"
      by (simp add: less_eq_div_iff_mult_less_eq mult.commute)
    show ?thesis
    proof (cases "k = 0")
      case True
      with False len show ?thesis by (simp add: str_nat_not_Nil)
    next
      case pos: False
      with Suc.IH [of "n div 10"] len div show ?thesis by simp
    qed
  qed
qed

lemma str_int_limit:
  "str_int env n = Inl ValueError
     \<longleftrightarrow> 0 < int_max_str_digits env \<and> int_max_str_digits env < length (str_nat (nat \<bar>n\<bar>))"
proof -
  let ?L = "int_max_str_digits env"
  have "(10::int) ^ ?L \<le> \<bar>n\<bar> \<longleftrightarrow> int (10 ^ ?L) \<le> int (nat \<bar>n\<bar>)"
    by simp
  also have "\<dots> \<longleftrightarrow> (10::nat) ^ ?L \<le> nat \<bar>n\<bar>"
    by (simp only: of_nat_le_iff)
  finally have "0 < ?L \<Longrightarrow> (10::int) ^ ?L \<le> \<bar>n\<bar> \<longleftrightarrow> ?L < length (str_nat (nat \<bar>n\<bar>))"
    by (simp only: digits_exceed)
  then show ?thesis
    by (cases "0 < ?L") (simp_all add: str_int_def)
qed

text \<open>The number as the program makes it is the zero-padded counter.\<close>

lemma zfill_str_nat_pad:
  assumes "int (length (str_nat m)) < w"
  shows "(case str_nat m of
            [] \<Rightarrow> Inr (replicate (nat (w - int (length (str_nat m)))) CHR ''0'')
          | c # cs \<Rightarrow>
              if c = CHR ''+'' \<or> c = CHR ''-''
              then Inr (c # replicate (nat (w - int (length (str_nat m)))) CHR ''0'' @ cs)
              else Inr (replicate (nat (w - int (length (str_nat m)))) CHR ''0'' @ str_nat m))
         = (Inr (replicate (nat (w - int (length (str_nat m)))) CHR ''0'' @ str_nat m) :: error + string)"
proof (cases "str_nat m")
  case Nil
  then show ?thesis by (simp add: str_nat_not_Nil)
next
  case (Cons c cs)
  with hd_str_nat [of m] have "c \<noteq> CHR ''+''" "c \<noteq> CHR ''-''" by auto
  with Cons show ?thesis by simp
qed

lemma num_str_counter_text: "num_str env n w = counter_text env n w"
proof (cases "n < 0")
  case True
  then show ?thesis
    by (simp add: num_str_def str_int_def zfill_def counter_text_def sign_pad_def decimal_def Let_def)
next
  case False
  then have d: "decimal n = str_nat (nat n)" by (simp add: decimal_def)
  show ?thesis
  proof (cases "int (length (str_nat (nat n))) < w")
    case True
    with False zfill_str_nat_pad [OF True] show ?thesis
      by (simp add: num_str_def str_int_def zfill_def counter_text_def sign_pad_def left_pad_def d
          Let_def)
  next
    case short: False
    with False show ?thesis
      by (simp add: num_str_def str_int_def zfill_def counter_text_def sign_pad_def left_pad_def d)
  qed
qed

lemma length_sign_pad: "int (length (sign_pad n w)) = max w (int (length (decimal n)))"
  by (auto simp: sign_pad_def left_pad_def decimal_def)

lemma replicate_numeral: "replicate (numeral k) x = x # replicate (pred_numeral k) x"
  by (simp add: numeral_eq_Suc)

text \<open>The digits of a number below ten thousand, place by place.\<close>

lemma str_nat_1: "n < 10 \<Longrightarrow> str_nat n = [digit n]"
  by (subst str_nat.simps) simp

lemma str_nat_2: "10 \<le> n \<Longrightarrow> n < 100 \<Longrightarrow> str_nat n = [digit (n div 10), digit (n mod 10)]"
  by (subst str_nat.simps) (simp add: str_nat_1)

lemma str_nat_3:
  "100 \<le> n \<Longrightarrow> n < 1000 \<Longrightarrow> str_nat n = [digit (n div 100), digit (n div 10 mod 10), digit (n mod 10)]"
  by (subst str_nat.simps) (simp add: str_nat_2 div_mult2_eq [symmetric])

lemma str_nat_4:
  "1000 \<le> n \<Longrightarrow> n < 10000 \<Longrightarrow>
   str_nat n = [digit (n div 1000), digit (n div 100 mod 10), digit (n div 10 mod 10), digit (n mod 10)]"
  by (subst str_nat.simps) (simp add: str_nat_3 div_mult2_eq [symmetric])

lemma digit_0: "digit 0 = CHR ''0''"
  by (simp add: digit_def)

lemma pad0_two: "n < 100 \<Longrightarrow> pad0 2 (str_nat n) = map digit [n div 10 mod 10, n mod 10]"
  by (cases "n < 10") (simp_all add: pad0_def str_nat_1 str_nat_2 digit_0)

lemma pad0_four:
  "n < 10000 \<Longrightarrow>
   pad0 4 (str_nat n) = map digit [n div 1000 mod 10, n div 100 mod 10, n div 10 mod 10, n mod 10]"
proof -
  assume "n < 10000"
  then consider "n < 10" | "10 \<le> n" "n < 100" | "100 \<le> n" "n < 1000" | "1000 \<le> n" "n < 10000"
    by linarith
  then show ?thesis
  proof cases
    case 1
    then show ?thesis by (simp add: pad0_def str_nat_1 digit_0 replicate_numeral)
  next
    case 2
    then show ?thesis by (simp add: pad0_def str_nat_2 digit_0 replicate_numeral)
  next
    case 3
    then show ?thesis by (simp add: pad0_def str_nat_3 digit_0)
  next
    case 4
    then show ?thesis by (simp add: pad0_def str_nat_4)
  qed
qed

lemma days_in_month_le: "days_in_month y m \<le> 31"
  by (simp add: days_in_month_def)

lemma fromtimestamp_range:
  assumes "fromtimestamp env t = Inr (y, m, d)"
  shows "1 \<le> y \<and> y \<le> 9999 \<and> 1 \<le> m \<and> m \<le> 12 \<and> 1 \<le> d \<and> d \<le> 31"
proof -
  from assms obtain y' where "localtime env t = Inr (y', m, d)" and "y = nat y'"
    and "1 \<le> y'" "y' \<le> 9999" "1 \<le> m" "m \<le> 12" "1 \<le> d" "d \<le> days_in_month (nat y') m"
    by (auto simp: fromtimestamp_def split: sum.splits prod.splits if_splits)
  with days_in_month_le [of "nat y'" m] show ?thesis by auto
qed

text \<open>The date string of the program is the date text of the specification.\<close>

lemma strftime_date_text:
  assumes "fromtimestamp env t = Inr date"
  shows "strftime_Ymd env date = date_text env date"
proof -
  obtain y m d where date: "date = (y, m, d)" by (cases date)
  from fromtimestamp_range [OF assms [unfolded date]]
  have r: "y < 10000" "m < 100" "d < 100" by auto
  show ?thesis
  proof (cases "pad_year env")
    case True
    with r show ?thesis
      by (simp add: date strftime_Ymd_def date_text_def yyyymmdd_def pad0_two pad0_four)
  next
    case False
    show ?thesis
    proof (cases "1000 \<le> y")
      case True
      with False r show ?thesis
        by (simp add: date strftime_Ymd_def date_text_def yyyymmdd_def pad0_two str_nat_4)
    next
      case small: False
      with False r show ?thesis
        by (simp add: date strftime_Ymd_def date_text_def pad0_two)
    qed
  qed
qed

lemma get_file_date_spec:
  "get_file_date env fs now p source =
     (case requested_timestamp fs now p source of
        Inl e \<Rightarrow> Inl e
      | Inr t \<Rightarrow>
          (case fromtimestamp env t of
             Inl e \<Rightarrow> Inl e
           | Inr date \<Rightarrow> Inr (date_text env date)))"
proof -
  have ts: "(if source = ''modified'' then
              (case fs p of
                 None \<Rightarrow> Inl FileNotFoundError
               | Some stat_info \<Rightarrow> Inr (st_mtime stat_info))
            else if source = ''created'' then
              (case fs p of
                 None \<Rightarrow> Inl FileNotFoundError
               | Some stat_info \<Rightarrow>
                   (case st_birthtime stat_info of
                      Some birthtime \<Rightarrow> Inr birthtime
                    | None \<Rightarrow> Inr (st_ctime stat_info)))
            else Inr now) = requested_timestamp fs now p source"
    by (auto simp: requested_timestamp_def split: option.splits)
  show ?thesis
    unfolding get_file_date_def ts
    by (auto simp: strftime_date_text split: sum.splits)
qed

lemma length_yyyymmdd: "length (yyyymmdd date) = 8"
  by (cases date) (simp add: yyyymmdd_def)

text \<open>The name generator, block by block.\<close>

lemma generate_new_name_blocks:
  "generate_new_name env fs now p opts number =
     (case step_search env opts (path_stem p) of
        Inl e \<Rightarrow> Inl e
      | Inr s \<Rightarrow>
          (case configured_number env opts number of
             Inl e \<Rightarrow> Inl e
           | Inr num \<Rightarrow>
               (case configured_date env fs now p opts of
                  Inl e \<Rightarrow> Inl e
                | Inr d \<Rightarrow>
                    Inr (step_date opts d (step_number opts num (step_suffix opts (step_prefix opts s)))
                         @ path_suffix p))))"
proof (cases "step_search env opts (path_stem p)")
  case (Inl e)
  then show ?thesis
    by (simp add: generate_new_name_def step_search_def Let_def split: option.splits)
next
  case (Inr s)
  then have search: "(case (search opts, replace opts) of
                 (Some pat, Some repl) \<Rightarrow> re_sub env pat repl (path_stem p)
               | _ \<Rightarrow> Inr (path_stem p)) = Inr s"
    by (simp add: step_search_def split: option.splits)
  have stem: "(if suffix opts \<noteq> [] then (if prefix opts \<noteq> [] then prefix opts @ s else s) @ suffix opts
               else if prefix opts \<noteq> [] then prefix opts @ s else s)
              = step_suffix opts (step_prefix opts s)"
    by (simp add: step_suffix_def step_prefix_def)
  show ?thesis
  proof (cases "configured_number env opts number")
    case (Inl e)
    with Inr search show ?thesis
      by (auto simp: generate_new_name_def configured_number_def num_str_counter_text Let_def
          split: option.splits sum.splits)
  next
    case num: (Inr num)
    then have number: "(case number of
                        None \<Rightarrow> Inr (step_suffix opts (step_prefix opts s))
                      | Some n \<Rightarrow>
                          (case num_str env n (number_padding opts) of
                             Inl e \<Rightarrow> Inl e
                           | Inr t \<Rightarrow>
                               Inr (if number_mode opts = ''sequential'' then t
                                    else step_suffix opts (step_prefix opts s) @ ''_'' @ t)))
                      = (Inr (step_number opts num (step_suffix opts (step_prefix opts s))) :: error + string)"
      by (auto simp: configured_number_def num_str_counter_text step_number_def
          split: option.splits sum.splits)
    show ?thesis
      unfolding generate_new_name_def Let_def search sum.case stem number Inr num
      by (auto simp: configured_date_def get_file_date_spec step_date_def
          split: option.splits sum.splits)
  qed
qed

text \<open>A counter of few digits is within every limit on conversions.\<close>

lemma str_int_small:
  assumes "\<bar>n\<bar> < 10" and "int_max_str_digits env \<noteq> 0"
  shows "str_int env n = Inr (decimal n)"
proof -
  have "(10::int) ^ 1 \<le> 10 ^ int_max_str_digits env"
    using assms(2) by (intro power_increasing) simp_all
  with assms(1) show ?thesis by (simp add: str_int_def)
qed

lemma limit_env_of: "0 < int_max_str_digits (env_of l)" "4 \<le> int_max_str_digits (env_of l)"
  by (simp_all add: env_of_def)

lemma str_int_at_limit:
  "0 < int_max_str_digits env \<Longrightarrow> str_int env (10 ^ int_max_str_digits env) = Inl ValueError"
  by (simp add: str_int_def)

text \<open>The two dates of the samples.\<close>

lemma utc_date_0: "utc_date 0 = (1970, 1, 1)"
  unfolding utc_date_def Let_def by simp

lemma utc_date_999: "utc_date (- 30641673600) = (999, 1, 2)"
  unfolding utc_date_def Let_def by simp

text \<open>The definitions a run on a sample input unfolds.\<close>

lemmas run_defs =
  rename_files_def collect_files_def path_glob_def path_rglob_def path_key_def initial_state_def
  rename_step_def generate_new_name_def num_str_def get_file_date_def fromtimestamp_def
  days_in_month_def is_leap_def strftime_Ymd_def pad0_def path_stem_def path_suffix_def
  path_name_def rfind_def zfill_def str_int_small decimal_def str_nat.simps digit_def
  joinpath_def path_of_def parse_root_def parent_def parse_parts_def exists_def rename_def
  is_dir_def is_file_def advance_def cparts_def env_of_def fs_with_def file_stat_def
  dir_stat_def dir_r_def in_r_def no_options_def Let_def replicate_numeral

lemmas one_defs = fs_999_def fs_one_def by_date_def utc_date_0 utc_date_999

lemmas two_defs = fs_two_def env_two_def strip_ones_def

lemmas num_defs = fs_num_def env_num_def numbered_def

section \<open>The name generator\<close>

text \<open>
  Claim C2, as stated, fails for the date.  Where the C library does not fill the year with
  zeros, a file dated 2 January 999 is named \<^verbatim>\<open>9990102_a.txt\<close>: the date has seven digits,
  where \<^verbatim>\<open>YYYYMMDD_\<close> would give \<^verbatim>\<open>09990102_a.txt\<close>.
\<close>

theorem year_counterexample:
  "fromtimestamp (env_of []) (- 30641673600) = Inr (999, 1, 2)
   \<and> generate_new_name (env_of []) fs_999 0 (in_r ''a.txt'') by_date None = Inr ''9990102_a.txt''
   \<and> yyyymmdd (999, 1, 2) @ ''_'' @ path_stem (in_r ''a.txt'') @ path_suffix (in_r ''a.txt'')
       = ''09990102_a.txt''"
  by (simp add: one_defs yyyymmdd_def run_defs)

text \<open>
  Claim C2, amended.  For every file and rule, \<^verbatim>\<open>generate_new_name\<close> transforms the stem in one
  fixed order: (1) the substitution of every match when search and replace are both given,
  (2) the prefix in front when it is not empty, (3) the suffix behind when it is not empty,
  (4) when a number is given, the zero-padded counter \<^verbatim>\<open>str(number).zfill(padding)\<close>, which
  replaces the stem so far in sequential mode and is appended after an underscore otherwise,
  (5) when a date is configured, the date and an underscore in front, or an underscore and
  the date behind; the extension of the file is appended unchanged at the end.  The date is
  that of the requested timestamp in local time as \<^verbatim>\<open>strftime('%Y%m%d')\<close> writes it: the eight
  digits \<^verbatim>\<open>YYYYMMDD\<close> from the year 1000 on and wherever the C library fills the year with
  zeros, and elsewhere the year with the digits it has, followed by \<^verbatim>\<open>MMDD\<close>.  The name is
  returned when the substitution, the formatting of the counter and the conversion of the
  timestamp raise nothing; otherwise the first of them to raise, in this order, ends the call
  with its exception (the conversion raises for a date outside the years 1 to 9999).
\<close>

theorem generate_new_name_order:
  "generate_new_name env fs now p opts number = spec_new_name env fs now p opts number
   \<and> (\<forall>t y m d. fromtimestamp env t = Inr (y, m, d) \<and> (1000 \<le> y \<or> pad_year env)
         \<longrightarrow> strftime_Ymd env (y, m, d) = yyyymmdd (y, m, d)
             \<and> date_text env (y, m, d) = yyyymmdd (y, m, d))
   \<and> (\<forall>date. length (yyyymmdd date) = 8)"
proof (intro conjI allI impI)
  show "generate_new_name env fs now p opts number = spec_new_name env fs now p opts number"
    by (simp add: generate_new_name_blocks spec_new_name_def split: sum.splits)
  show "strftime_Ymd env (y, m, d) = yyyymmdd (y, m, d)"
    if "fromtimestamp env t = Inr (y, m, d) \<and> (1000 \<le> y \<or> pad_year env)" for t y m d
    using that strftime_date_text [of env t "(y, m, d)"] by (simp add: date_text_def)
  show "date_text env (y, m, d) = yyyymmdd (y, m, d)"
    if "fromtimestamp env t = Inr (y, m, d) \<and> (1000 \<le> y \<or> pad_year env)" for t y m d
    using that by (simp add: date_text_def)
  show "length (yyyymmdd date) = 8" for date
    by (rule length_yyyymmdd)
qed

theorem generate_new_name_order_witness:
  "fromtimestamp (env_of []) 0 = Inr (1970, 1, 1) \<and> (1000::nat) \<le> 1970
   \<and> strftime_Ymd (env_of []) (1970, 1, 1) = yyyymmdd (1970, 1, 1)
   \<and> date_text (env_of []) (1970, 1, 1) = yyyymmdd (1970, 1, 1)
   \<and> yyyymmdd (1970, 1, 1) = ''19700101''
   \<and> generate_new_name (env_of []) fs_one 0 (in_r ''a.txt'')
        (no_options\<lparr>prefix := ''p_'', suffix := ''_s'', date_type := Some ''modified''\<rparr>) (Some 7)
      = Inr ''19700101_p_a_s_007.txt''"
proof -
  let ?o = "no_options\<lparr>prefix := ''p_'', suffix := ''_s'', date_type := Some ''modified''\<rparr>"
  note T = generate_new_name_order [of "env_of []" fs_one 0 "in_r ''a.txt''" ?o "Some 7"]
  have f: "fromtimestamp (env_of []) 0 = Inr (1970, 1, 1)"
    by (simp add: fromtimestamp_def days_in_month_def env_of_def utc_date_0)
  from T have "\<forall>t y m d. fromtimestamp (env_of []) t = Inr (y, m, d)
         \<and> (1000 \<le> y \<or> pad_year (env_of []))
         \<longrightarrow> strftime_Ymd (env_of []) (y, m, d) = yyyymmdd (y, m, d)
             \<and> date_text (env_of []) (y, m, d) = yyyymmdd (y, m, d)"
    by blast
  from this [rule_format, of 0 1970 1 1] f
  have s: "strftime_Ymd (env_of []) (1970, 1, 1) = yyyymmdd (1970, 1, 1)"
    and d: "date_text (env_of []) (1970, 1, 1) = yyyymmdd (1970, 1, 1)"
    by simp_all
  have y: "yyyymmdd (1970, 1, 1) = ''19700101''"
    by (simp add: yyyymmdd_def digit_def)
  have c: "counter_text (env_of []) 7 3 = Inr ''007''"
    by (simp add: num_str_counter_text [symmetric] run_defs)
  have "spec_new_name (env_of []) fs_one 0 (in_r ''a.txt'') ?o (Some 7) = Inr ''19700101_p_a_s_007.txt''"
    by (simp add: spec_new_name_def step_search_def configured_number_def c configured_date_def
        requested_timestamp_def fs_one_def fs_with_def file_stat_def f [unfolded One_nat_def]
        d [unfolded One_nat_def] y [unfolded One_nat_def] step_date_def
        step_number_def step_suffix_def step_prefix_def no_options_def
        path_stem_def path_suffix_def path_name_def rfind_def in_r_def Let_def)
  with T have g: "generate_new_name (env_of []) fs_one 0 (in_r ''a.txt'') ?o (Some 7)
      = Inr ''19700101_p_a_s_007.txt''"
    by simp
  have le: "(1000::nat) \<le> 1970" by simp
  show ?thesis by (intro conjI f le s d y g)
qed

text \<open>
  Claim C7, as stated, fails.  At a negative counter: with counter \<open>-5\<close> and width \<open>3\<close> the
  name of \<^verbatim>\<open>a.txt\<close> in sequential mode is \<^verbatim>\<open>-05.txt\<close>, where zeros to the left of the decimal
  representation would give \<^verbatim>\<open>0-5.txt\<close>.  And errors are raised: the width \<open>2 ^ 63\<close> raises
  \<^verbatim>\<open>OverflowError\<close>, the width \<open>2 ^ 63 - 1\<close> raises \<^verbatim>\<open>MemoryError\<close>, and a counter of one digit
  more than the limit on conversions allows raises \<^verbatim>\<open>ValueError\<close>.
\<close>

theorem padding_counterexample:
  "generate_new_name (env_of []) fs_one 0 (in_r ''a.txt'')
     (no_options\<lparr>number_mode := ''sequential''\<rparr>) (Some (- 5)) = Inr ''-05.txt''
   \<and> left_pad (- 5) (number_padding no_options) @ path_suffix (in_r ''a.txt'') = ''0-5.txt''
   \<and> generate_new_name (env_of []) fs_one 0 (in_r ''a.txt'')
        (no_options\<lparr>number_padding := 9223372036854775808\<rparr>) (Some 5) = Inl OverflowError
   \<and> generate_new_name (env_of []) fs_one 0 (in_r ''a.txt'')
        (no_options\<lparr>number_padding := 9223372036854775807\<rparr>) (Some 5) = Inl MemoryError
   \<and> generate_new_name (env_of []) fs_one 0 (in_r ''a.txt'') no_options
        (Some (10 ^ int_max_str_digits (env_of []))) = Inl ValueError"
proof -
  have "generate_new_name (env_of []) fs_one 0 (in_r ''a.txt'') no_options
        (Some (10 ^ int_max_str_digits (env_of []))) = Inl ValueError"
    by (simp add: generate_new_name_def num_str_def str_int_at_limit [OF limit_env_of(1)]
        no_options_def Let_def)
  moreover have "generate_new_name (env_of []) fs_one 0 (in_r ''a.txt'')
     (no_options\<lparr>number_mode := ''sequential''\<rparr>) (Some (- 5)) = Inr ''-05.txt''"
    by (simp add: run_defs)
  moreover have "left_pad (- 5) (number_padding no_options) @ path_suffix (in_r ''a.txt'') = ''0-5.txt''"
    by (simp add: left_pad_def run_defs)
  moreover have "generate_new_name (env_of []) fs_one 0 (in_r ''a.txt'')
        (no_options\<lparr>number_padding := 9223372036854775808\<rparr>) (Some 5) = Inl OverflowError"
    by (simp add: run_defs)
  moreover have "generate_new_name (env_of []) fs_one 0 (in_r ''a.txt'')
        (no_options\<lparr>number_padding := 9223372036854775807\<rparr>) (Some 5) = Inl MemoryError"
    by (simp add: run_defs)
  ultimately show ?thesis by blast
qed

text \<open>
  Claim C7, amended.  For every counter value and padding width, the number is made by
  \<^verbatim>\<open>str(number).zfill(padding)\<close>, which raises \<^verbatim>\<open>ValueError\<close> when the limit on conversions is
  on and the counter has more digits than it allows, else \<^verbatim>\<open>OverflowError\<close> when the width is
  outside the range of \<^verbatim>\<open>Py_ssize_t\<close>, else \<^verbatim>\<open>MemoryError\<close> when the width is larger than the
  length of the decimal representation and than the longest string that can be allocated.
  In every other case the number put into the name is the decimal representation of the
  counter filled with zeros up to the width: to the left of it when the counter is not
  negative, between the minus sign and the digits when it is.  Its length is the larger of
  the width and the length of the decimal representation, so nothing is ever cut off.  This
  is the number \<^verbatim>\<open>generate_new_name\<close> inserts under every rule, in place of the stem in
  sequential mode and after the stem and an underscore otherwise.
\<close>

theorem padding_sign_aware:
  "num_str env n w =
     (if 0 < int_max_str_digits env \<and> 10 ^ int_max_str_digits env \<le> \<bar>n\<bar> then Inl ValueError
      else if w < - ssize_t_max env - 1 \<or> ssize_t_max env < w then Inl OverflowError
      else if int (length (decimal n)) < w \<and> alloc_limit env < nat w then Inl MemoryError
      else Inr (sign_pad n w))
   \<and> (0 \<le> n \<longrightarrow> sign_pad n w = left_pad n w)
   \<and> (n < 0 \<longrightarrow> sign_pad n w =
         CHR ''-'' # replicate (nat (w - int (length (decimal n)))) CHR ''0'' @ str_nat (nat (- n)))
   \<and> int (length (sign_pad n w)) = max w (int (length (decimal n)))
   \<and> generate_new_name env fs now p opts (Some n) =
       (case step_search env opts (path_stem p) of
          Inl e \<Rightarrow> Inl e
        | Inr s \<Rightarrow>
            (case num_str env n (number_padding opts) of
               Inl e \<Rightarrow> Inl e
             | Inr num \<Rightarrow>
                 (case configured_date env fs now p opts of
                    Inl e \<Rightarrow> Inl e
                  | Inr d \<Rightarrow>
                      Inr (step_date opts d
                             (if number_mode opts = ''sequential'' then num
                              else step_suffix opts (step_prefix opts s) @ ''_'' @ num)
                           @ path_suffix p))))"
proof (intro conjI impI)
  show "num_str env n w =
     (if 0 < int_max_str_digits env \<and> 10 ^ int_max_str_digits env \<le> \<bar>n\<bar> then Inl ValueError
      else if w < - ssize_t_max env - 1 \<or> ssize_t_max env < w then Inl OverflowError
      else if int (length (decimal n)) < w \<and> alloc_limit env < nat w then Inl MemoryError
      else Inr (sign_pad n w))"
    by (simp only: num_str_counter_text counter_text_def)
  show "sign_pad n w = left_pad n w" if "0 \<le> n"
    using that by (simp add: sign_pad_def)
  show "sign_pad n w =
         CHR ''-'' # replicate (nat (w - int (length (decimal n)))) CHR ''0'' @ str_nat (nat (- n))"
    if "n < 0"
    using that by (simp add: sign_pad_def)
  show "int (length (sign_pad n w)) = max w (int (length (decimal n)))"
    by (rule length_sign_pad)
  show "generate_new_name env fs now p opts (Some n) =
       (case step_search env opts (path_stem p) of
          Inl e \<Rightarrow> Inl e
        | Inr s \<Rightarrow>
            (case num_str env n (number_padding opts) of
               Inl e \<Rightarrow> Inl e
             | Inr num \<Rightarrow>
                 (case configured_date env fs now p opts of
                    Inl e \<Rightarrow> Inl e
                  | Inr d \<Rightarrow>
                      Inr (step_date opts d
                             (if number_mode opts = ''sequential'' then num
                              else step_suffix opts (step_prefix opts s) @ ''_'' @ num)
                           @ path_suffix p))))"
    by (simp add: generate_new_name_blocks configured_number_def num_str_counter_text step_number_def
        split: sum.splits)
qed

theorem padding_sign_aware_witness:
  "(0::int) \<le> 1234 \<and> (- 7::int) < 0
   \<and> num_str (env_of []) 1234 3 = Inr (sign_pad 1234 3)
   \<and> sign_pad 1234 3 = left_pad 1234 3
   \<and> left_pad 1234 3 = ''1234''
   \<and> num_str (env_of []) (- 7) 3 = Inr (sign_pad (- 7) 3)
   \<and> sign_pad (- 7) 3 = ''-07''
   \<and> sign_pad 7 3 = ''007''
   \<and> generate_new_name (env_of []) fs_one 0 (in_r ''a.txt'') no_options (Some 1234)
      = Inr ''a_1234.txt''"
proof -
  have lim: "\<not> (10::int) ^ int_max_str_digits (env_of []) \<le> \<bar>m\<bar>" if "\<bar>m\<bar> < 10000" for m
  proof -
    have "(10::int) ^ 4 \<le> 10 ^ int_max_str_digits (env_of [])"
      by (rule power_increasing [OF limit_env_of(2)]) simp
    with that show ?thesis by simp
  qed
  note T1 = padding_sign_aware [of "env_of []" 1234 3 fs_one 0 "in_r ''a.txt''" no_options]
  note T2 = padding_sign_aware [of "env_of []" "- 7" 3 fs_one 0 "in_r ''a.txt''" no_options]
  have d1: "decimal 1234 = ''1234''" and d2: "decimal (- 7) = ''-7''" and d3: "decimal 7 = ''7''"
    by (simp_all add: decimal_def str_nat.simps digit_def)
  have ss: "\<not> (3 < - ssize_t_max (env_of []) - 1 \<or> ssize_t_max (env_of []) < 3)"
    and al: "\<not> alloc_limit (env_of []) < nat 3"
    by (simp_all add: env_of_def)
  have a: "num_str (env_of []) 1234 3 = Inr (sign_pad 1234 3)"
    using T1 lim [of 1234] ss al by (simp add: d1)
  have b: "sign_pad 1234 3 = left_pad 1234 3"
    using T1 by simp
  have c: "left_pad 1234 3 = ''1234''"
    by (simp add: left_pad_def d1)
  have d: "num_str (env_of []) (- 7) 3 = Inr (sign_pad (- 7) 3)"
    using T2 lim [of "- 7"] ss al by (simp add: d2)
  have e: "sign_pad (- 7) 3 = ''-07''"
    using T2 by (simp add: d2 str_nat.simps digit_def replicate_numeral)
  have f: "sign_pad 7 3 = ''007''"
    by (simp add: sign_pad_def left_pad_def d3 replicate_numeral)
  have g: "generate_new_name (env_of []) fs_one 0 (in_r ''a.txt'') no_options (Some 1234)
      = Inr ''a_1234.txt''"
  proof -
    have n: "num_str (env_of []) 1234 (number_padding no_options) = Inr ''1234''"
      using a b c by (simp add: no_options_def)
    from T1 have "generate_new_name (env_of []) fs_one 0 (in_r ''a.txt'') no_options (Some 1234) =
       (case step_search (env_of []) no_options (path_stem (in_r ''a.txt'')) of
          Inl e \<Rightarrow> Inl e
        | Inr s \<Rightarrow>
            (case num_str (env_of []) 1234 (number_padding no_options) of
               Inl e \<Rightarrow> Inl e
             | Inr num \<Rightarrow>
                 (case configured_date (env_of []) fs_one 0 (in_r ''a.txt'') no_options of
                    Inl e \<Rightarrow> Inl e
                  | Inr d \<Rightarrow>
                      Inr (step_date no_options d
                             (if number_mode no_options = ''sequential'' then num
                              else step_suffix no_options (step_prefix no_options s) @ ''_'' @ num)
                           @ path_suffix (in_r ''a.txt'')))))"
      by blast
    then show ?thesis
      unfolding n
      by (simp add: step_search_def configured_date_def step_date_def step_suffix_def
          step_prefix_def no_options_def path_stem_def path_suffix_def path_name_def rfind_def
          in_r_def Let_def)
  qed
  from a b c d e f g show ?thesis by simp
qed

section \<open>One turn of the loop\<close>

lemma rename_step_unchanged:
  assumes "generate_new_name env (fsys st) now f opts (number_for opts st) = Inr name"
    and "joinpath (parent f) name = f"
  shows "rename_step env now opts st f = Inr (advance opts st)"
  using assms by (simp add: rename_step_def number_for_def Let_def)

lemma rename_step_dry:
  assumes "\<not> execute opts"
    and "generate_new_name env (fsys st) now f opts (number_for opts st) = Inr name"
    and "joinpath (parent f) name \<noteq> f"
  shows "rename_step env now opts st f =
           Inr (advance opts (st\<lparr>renames := renames st @ [(f, joinpath (parent f) name)]\<rparr>))"
  using assms by (simp add: rename_step_def number_for_def Let_def)

lemma rename_step_skip:
  assumes "execute opts"
    and "generate_new_name env (fsys st) now f opts (number_for opts st) = Inr name"
    and "joinpath (parent f) name \<noteq> f"
    and "exists (fsys st) (joinpath (parent f) name)"
  shows "rename_step env now opts st f =
           Inr (st\<lparr>renames := renames st @ [(f, joinpath (parent f) name)],
                   warnings := warnings st @ [skip_warning f name]\<rparr>)"
  using assms by (simp add: rename_step_def number_for_def skip_warning_def Let_def)

lemma rename_step_rename:
  assumes "execute opts"
    and "generate_new_name env (fsys st) now f opts (number_for opts st) = Inr name"
    and "joinpath (parent f) name \<noteq> f"
    and "\<not> exists (fsys st) (joinpath (parent f) name)"
  shows "rename_step env now opts st f =
           (case rename (fsys st) f (joinpath (parent f) name) of
              Inl e \<Rightarrow> Inl e
            | Inr fs' \<Rightarrow>
                Inr (advance opts (st\<lparr>renames := renames st @ [(f, joinpath (parent f) name)],
                                       fsys := fs'\<rparr>)))"
  using assms by (simp add: rename_step_def number_for_def Let_def split: sum.splits)

lemma rename_step_error:
  assumes "generate_new_name env (fsys st) now f opts (number_for opts st) = Inl e"
  shows "rename_step env now opts st f = Inl e"
  using assms by (simp add: rename_step_def number_for_def Let_def)

lemma renames_advance: "renames (advance opts st) = renames st"
  by (simp add: advance_def)

lemma advance_off: "\<not> numbering opts \<Longrightarrow> advance opts st = st"
  by (simp add: advance_def)

lemma generate_unconfigured:
  assumes "prefix opts = []" "suffix opts = []" "date_type opts = None"
    and "search opts = None \<or> replace opts = None
         \<or> (\<exists>pat repl. search opts = Some pat \<and> replace opts = Some repl
               \<and> re_sub env pat repl (path_stem p) = Inr (path_stem p))"
  shows "generate_new_name env fs now p opts None = Inr (path_name p)"
proof -
  from assms(4) have "step_search env opts (path_stem p) = Inr (path_stem p)"
    by (auto simp: step_search_def split: option.splits)
  with assms(1-3) show ?thesis
    by (simp add: generate_new_name_blocks configured_number_def configured_date_def
        step_date_def step_number_def step_suffix_def step_prefix_def stem_suffix_name)
qed

text \<open>
  Claim C6.  A file whose stem the rule leaves as it was gets back exactly its own name from
  \<^verbatim>\<open>generate_new_name\<close>, and the loop passes it by without an entry in the plan.  This
  covers the rule with no option at all and the rule whose search pattern matches nothing in
  the stem; in both the state of the run is left as it was.
\<close>

theorem unchanged_name_excluded:
  assumes "wf_path p"
  shows "(generate_new_name env (fsys st) now p opts (number_for opts st)
            = Inr (path_stem p @ path_suffix p) \<longrightarrow>
          generate_new_name env (fsys st) now p opts (number_for opts st) = Inr (path_name p)
          \<and> rename_step env now opts st p = Inr (advance opts st)
          \<and> renames (advance opts st) = renames st)
       \<and> (prefix opts = [] \<and> suffix opts = [] \<and> search opts = None \<and> replace opts = None
          \<and> \<not> numbering opts \<and> date_type opts = None \<longrightarrow>
          generate_new_name env (fsys st) now p opts (number_for opts st) = Inr (path_name p)
          \<and> rename_step env now opts st p = Inr st)
       \<and> (prefix opts = [] \<and> suffix opts = [] \<and> search opts = Some pat \<and> replace opts = Some repl
          \<and> re_sub env pat repl (path_stem p) = Inr (path_stem p)
          \<and> \<not> numbering opts \<and> date_type opts = None \<longrightarrow>
          generate_new_name env (fsys st) now p opts (number_for opts st) = Inr (path_name p)
          \<and> rename_step env now opts st p = Inr st)"
proof (intro conjI impI)
  assume g: "generate_new_name env (fsys st) now p opts (number_for opts st)
               = Inr (path_stem p @ path_suffix p)"
  then show n: "generate_new_name env (fsys st) now p opts (number_for opts st) = Inr (path_name p)"
    by (simp add: stem_suffix_name)
  show "rename_step env now opts st p = Inr (advance opts st)"
    by (rule rename_step_unchanged [OF n]) (rule joinpath_parent_name [OF assms])
  show "renames (advance opts st) = renames st"
    by (rule renames_advance)
next
  assume h: "prefix opts = [] \<and> suffix opts = [] \<and> search opts = None \<and> replace opts = None
          \<and> \<not> numbering opts \<and> date_type opts = None"
  then have nf: "number_for opts st = None" by (simp add: number_for_def)
  from h show n: "generate_new_name env (fsys st) now p opts (number_for opts st) = Inr (path_name p)"
    unfolding nf by (intro generate_unconfigured) simp_all
  from h show "rename_step env now opts st p = Inr st"
    using rename_step_unchanged [OF n joinpath_parent_name [OF assms]] by (simp add: advance_off)
next
  assume h: "prefix opts = [] \<and> suffix opts = [] \<and> search opts = Some pat \<and> replace opts = Some repl
          \<and> re_sub env pat repl (path_stem p) = Inr (path_stem p)
          \<and> \<not> numbering opts \<and> date_type opts = None"
  then have nf: "number_for opts st = None" by (simp add: number_for_def)
  from h show n: "generate_new_name env (fsys st) now p opts (number_for opts st) = Inr (path_name p)"
    unfolding nf by (intro generate_unconfigured) simp_all
  from h show "rename_step env now opts st p = Inr st"
    using rename_step_unchanged [OF n joinpath_parent_name [OF assms]] by (simp add: advance_off)
qed

theorem unchanged_name_excluded_witness:
  "wf_path (in_r ''a.txt'')
   \<and> rename_step (env_of []) 0 no_options (initial_state no_options (fs_with [dir_r] [in_r ''a.txt'']))
        (in_r ''a.txt'') = Inr (initial_state no_options (fs_with [dir_r] [in_r ''a.txt'']))
   \<and> re_sub (env_of []) ''draft'' ''final'' (path_stem (in_r ''a.txt'')) = Inr (path_stem (in_r ''a.txt''))
   \<and> generate_new_name (env_of []) (fs_with [dir_r] [in_r ''a.txt'']) 0 (in_r ''a.txt'')
        (no_options\<lparr>search := Some ''draft'', replace := Some ''final''\<rparr>) None = Inr ''a.txt''
   \<and> wf_path (in_r ''001.txt'')
   \<and> generate_new_name (env_of [])
        (fsys (initial_state (no_options\<lparr>numbering := True, number_mode := ''sequential''\<rparr>)
                 (fs_with [dir_r] [in_r ''001.txt''])))
        0 (in_r ''001.txt'') (no_options\<lparr>numbering := True, number_mode := ''sequential''\<rparr>)
        (number_for (no_options\<lparr>numbering := True, number_mode := ''sequential''\<rparr>)
           (initial_state (no_options\<lparr>numbering := True, number_mode := ''sequential''\<rparr>)
              (fs_with [dir_r] [in_r ''001.txt''])))
      = Inr (path_stem (in_r ''001.txt'') @ path_suffix (in_r ''001.txt''))
   \<and> rename_step (env_of []) 0 (no_options\<lparr>numbering := True, number_mode := ''sequential''\<rparr>)
        (initial_state (no_options\<lparr>numbering := True, number_mode := ''sequential''\<rparr>)
           (fs_with [dir_r] [in_r ''001.txt'']))
        (in_r ''001.txt'')
      = Inr (advance (no_options\<lparr>numbering := True, number_mode := ''sequential''\<rparr>)
               (initial_state (no_options\<lparr>numbering := True, number_mode := ''sequential''\<rparr>)
                  (fs_with [dir_r] [in_r ''001.txt''])))"
proof -
  let ?q = "in_r ''001.txt''"
  let ?o3 = "no_options\<lparr>numbering := True, number_mode := ''sequential''\<rparr>"
  let ?st3 = "initial_state ?o3 (fs_with [dir_r] [?q])"
  have wfq: "wf_path ?q" by (simp add: wf_path_def in_r_def)
  have same: "generate_new_name (env_of []) (fsys ?st3) 0 ?q ?o3 (number_for ?o3 ?st3)
                = Inr (path_stem ?q @ path_suffix ?q)"
    by (simp add: number_for_def run_defs)
  have seq: "rename_step (env_of []) 0 ?o3 ?st3 ?q = Inr (advance ?o3 ?st3)"
    using unchanged_name_excluded [OF wfq, of "env_of []" ?st3 0 ?o3] same by blast
  let ?p = "in_r ''a.txt''"
  let ?fs = "fs_with [dir_r] [?p]"
  let ?o2 = "no_options\<lparr>search := Some ''draft'', replace := Some ''final''\<rparr>"
  have wf: "wf_path ?p" by (simp add: wf_path_def in_r_def)
  have stem: "path_stem ?p = ''a''" and nm: "path_name ?p = ''a.txt''"
    by (simp_all add: path_stem_def path_name_def in_r_def rfind_def Let_def)
  have nomatch: "re_sub (env_of []) ''draft'' ''final'' (path_stem ?p) = Inr (path_stem ?p)"
    by (simp add: stem env_of_def)
  have "rename_step (env_of []) 0 no_options (initial_state no_options ?fs) ?p
          = Inr (initial_state no_options ?fs)"
    using unchanged_name_excluded [OF wf, of "env_of []" "initial_state no_options ?fs" 0 no_options]
    by (simp add: no_options_def)
  moreover have "generate_new_name (env_of []) ?fs 0 ?p ?o2 None = Inr ''a.txt''"
    using unchanged_name_excluded [OF wf, of "env_of []" "initial_state ?o2 ?fs" 0 ?o2 "''draft''" "''final''"]
      nomatch
    by (simp add: no_options_def number_for_def initial_state_def nm)
  ultimately show ?thesis using wf nomatch wfq same seq by blast
qed

section \<open>The whole loop\<close>

lemma rename_loop_append:
  "rename_loop env clock opts i st (xs @ ys) =
     (case rename_loop env clock opts i st xs of
        Inl e \<Rightarrow> Inl e
      | Inr st1 \<Rightarrow> rename_loop env clock opts (i + length xs) st1 ys)"
  by (induction xs arbitrary: i st) (auto split: sum.splits)

text \<open>What a turn that returns has done: one of four things.\<close>

lemma rename_step_cases:
  assumes "rename_step env now opts st f = Inr st'"
  obtains (unchanged) name where
      "generate_new_name env (fsys st) now f opts (number_for opts st) = Inr name"
      "joinpath (parent f) name = f" "st' = advance opts st"
  | (planned) name where
      "generate_new_name env (fsys st) now f opts (number_for opts st) = Inr name"
      "joinpath (parent f) name \<noteq> f" "\<not> execute opts"
      "st' = advance opts (st\<lparr>renames := renames st @ [(f, joinpath (parent f) name)]\<rparr>)"
  | (skipped) name where
      "generate_new_name env (fsys st) now f opts (number_for opts st) = Inr name"
      "joinpath (parent f) name \<noteq> f" "execute opts" "exists (fsys st) (joinpath (parent f) name)"
      "st' = st\<lparr>renames := renames st @ [(f, joinpath (parent f) name)],
                 warnings := warnings st @ [skip_warning f name]\<rparr>"
  | (renamed) name fs' where
      "generate_new_name env (fsys st) now f opts (number_for opts st) = Inr name"
      "joinpath (parent f) name \<noteq> f" "execute opts" "\<not> exists (fsys st) (joinpath (parent f) name)"
      "rename (fsys st) f (joinpath (parent f) name) = Inr fs'"
      "st' = advance opts (st\<lparr>renames := renames st @ [(f, joinpath (parent f) name)], fsys := fs'\<rparr>)"
proof (cases "generate_new_name env (fsys st) now f opts (number_for opts st)")
  case (Inl e)
  with assms show ?thesis by (simp add: rename_step_error)
next
  case (Inr name)
  show ?thesis
  proof (cases "joinpath (parent f) name = f")
    case True
    with Inr assms unchanged show ?thesis by (simp add: rename_step_unchanged)
  next
    case diff: False
    show ?thesis
    proof (cases "execute opts")
      case False
      with Inr diff assms planned show ?thesis by (simp add: rename_step_dry)
    next
      case ex: True
      show ?thesis
      proof (cases "exists (fsys st) (joinpath (parent f) name)")
        case True
        with Inr diff ex assms skipped show ?thesis by (simp add: rename_step_skip)
      next
        case False
        with Inr diff ex assms renamed show ?thesis
          by (auto simp: rename_step_rename split: sum.splits)
      qed
    qed
  qed
qed

lemma fsys_advance: "fsys (advance opts st) = fsys st"
  by (simp add: advance_def)

lemma warnings_advance: "warnings (advance opts st) = warnings st"
  by (simp add: advance_def)


text \<open>The plan only grows.\<close>

lemma rename_step_renames:
  assumes "rename_step env now opts st f = Inr st'"
  shows "\<exists>zs. renames st' = renames st @ zs"
  using assms by (cases rule: rename_step_cases) (simp_all add: renames_advance)

lemma rename_loop_renames:
  "rename_loop env clock opts i st files = Inr st' \<Longrightarrow> \<exists>zs. renames st' = renames st @ zs"
proof (induction files arbitrary: i st)
  case Nil
  then show ?case by simp
next
  case (Cons f files)
  then obtain st1 where s: "rename_step env (clock i) opts st f = Inr st1"
    and l: "rename_loop env clock opts (Suc i) st1 files = Inr st'"
    by (auto split: sum.splits)
  from rename_step_renames [OF s] Cons.IH [OF l] show ?case by auto
qed

lemma rename_step_warnings:
  assumes "rename_step env now opts st f = Inr st'"
  shows "\<exists>zs. warnings st' = warnings st @ zs"
  using assms by (cases rule: rename_step_cases) (simp_all add: warnings_advance)

lemma rename_loop_warnings:
  "rename_loop env clock opts i st files = Inr st' \<Longrightarrow> \<exists>zs. warnings st' = warnings st @ zs"
proof (induction files arbitrary: i st)
  case Nil
  then show ?case by simp
next
  case (Cons f files)
  then obtain st1 where s: "rename_step env (clock i) opts st f = Inr st1"
    and l: "rename_loop env clock opts (Suc i) st1 files = Inr st'"
    by (auto split: sum.splits)
  from rename_step_warnings [OF s] Cons.IH [OF l] show ?case by auto
qed



lemma rename_step_made_by:
  assumes "rename_step env now opts st f = Inr st'" and "e \<in> set (renames st')"
  shows "e \<in> set (renames st) \<or> made_by env opts e"
  using assms
proof (cases rule: rename_step_cases)
  case (unchanged name)
  with assms(2) show ?thesis by (simp add: renames_advance)
next
  case (planned name)
  with assms(2) show ?thesis by (auto simp: renames_advance made_by_def)
next
  case (skipped name)
  with assms(2) show ?thesis by (auto simp: made_by_def)
next
  case (renamed name fs')
  with assms(2) show ?thesis by (auto simp: renames_advance made_by_def)
qed

lemma rename_loop_made_by:
  "rename_loop env clock opts i st files = Inr st' \<Longrightarrow> e \<in> set (renames st') \<Longrightarrow>
   e \<in> set (renames st) \<or> made_by env opts e"
proof (induction files arbitrary: i st)
  case Nil
  then show ?case by simp
next
  case (Cons f files)
  then obtain st1 where s: "rename_step env (clock i) opts st f = Inr st1"
    and l: "rename_loop env clock opts (Suc i) st1 files = Inr st'"
    by (auto split: sum.splits)
  from Cons.IH [OF l Cons.prems(2)] rename_step_made_by [OF s] show ?case by blast
qed



lemma rename_file_result:
  assumes "rename fs g q = Inr fs'" and "\<not> is_dir fs g" and "g \<noteq> q"
  shows "\<exists>s. fs g = Some s \<and> st_kind s = RegularFile \<and> fs' = fs(g := None, q \<mapsto> s)"
proof (cases "fs g")
  case None
  with assms(1) show ?thesis by (simp add: rename_def)
next
  case (Some s)
  with assms(2) have "st_kind s = RegularFile"
    by (cases "st_kind s") (simp_all add: is_dir_def)
  with Some assms(1,3) show ?thesis
    by (simp add: rename_def split: if_splits)
qed

lemma rename_step_fsys:
  assumes "rename_step env now opts st g = Inr st'" and "\<not> is_dir (fsys st) g"
  shows "fsys st' = fsys st
       \<or> (\<exists>q s. \<not> exists (fsys st) q \<and> q \<noteq> g \<and> fsys st g = Some s \<and> st_kind s = RegularFile
                 \<and> fsys st' = (fsys st)(g := None, q \<mapsto> s))"
  using assms(1)
proof (cases rule: rename_step_cases)
  case (renamed name fs')
  from rename_file_result [OF renamed(5) assms(2)] renamed(2)
  obtain s where "fsys st g = Some s" "st_kind s = RegularFile"
    "fs' = (fsys st)(g := None, joinpath (parent g) name \<mapsto> s)"
    by auto
  with renamed show ?thesis by (auto simp: fsys_advance)
qed (simp_all add: fsys_advance)

lemma rename_step_preserves:
  assumes "rename_step env now opts st g = Inr st'" and "\<not> is_dir (fsys st) g"
    and "f \<noteq> g" and "fsys st f = Some s"
  shows "fsys st' f = Some s"
  using rename_step_fsys [OF assms(1,2)] assms(3,4) by (auto simp: exists_def)

lemma rename_step_not_dir:
  assumes "rename_step env now opts st g = Inr st'" and "\<not> is_dir (fsys st) g"
    and "\<not> is_dir (fsys st) h"
  shows "\<not> is_dir (fsys st') h"
  using rename_step_fsys [OF assms(1,2)] assms(3)
  by (auto simp: is_dir_def split: if_splits option.splits)

lemma rename_loop_preserves:
  "rename_loop env clock opts i st files = Inr st' \<Longrightarrow>
   \<forall>g \<in> set files. \<not> is_dir (fsys st) g \<Longrightarrow> f \<notin> set files \<Longrightarrow> fsys st f = Some s \<Longrightarrow>
   fsys st' f = Some s"
proof (induction files arbitrary: i st)
  case Nil
  then show ?case by simp
next
  case (Cons g files)
  then obtain st1 where s: "rename_step env (clock i) opts st g = Inr st1"
    and l: "rename_loop env clock opts (Suc i) st1 files = Inr st'"
    by (auto split: sum.splits)
  from Cons.prems have nd: "\<not> is_dir (fsys st) g" and ne: "f \<noteq> g" by auto
  have "\<forall>h \<in> set files. \<not> is_dir (fsys st1) h"
    using Cons.prems(2) rename_step_not_dir [OF s nd] by simp
  moreover have "f \<notin> set files" using Cons.prems(3) by simp
  moreover have "fsys st1 f = Some s"
    by (rule rename_step_preserves [OF s nd ne Cons.prems(4)])
  ultimately show ?case by (rule Cons.IH [OF l])
qed

text \<open>The turn of a file whose destination exists, inside a run.\<close>

lemma rename_loop_skip:
  assumes "execute opts"
    and "rename_loop env clock opts i st pre = Inr st1"
    and "generate_new_name env (fsys st1) (clock (i + length pre)) f opts (number_for opts st1) = Inr name"
    and "joinpath (parent f) name \<noteq> f"
    and "exists (fsys st1) (joinpath (parent f) name)"
  shows "rename_loop env clock opts i st (pre @ f # post) =
           rename_loop env clock opts (Suc (i + length pre))
             (st1\<lparr>renames := renames st1 @ [(f, joinpath (parent f) name)],
                  warnings := warnings st1 @ [skip_warning f name]\<rparr>) post"
  by (simp add: rename_loop_append assms(2) rename_step_skip [OF assms(1,3,4,5)])

lemma rename_loop_skip_frame:
  assumes "execute opts"
    and "rename_loop env clock opts i st pre = Inr st1"
    and "generate_new_name env (fsys st1) (clock (i + length pre)) f opts (number_for opts st1) = Inr name"
    and "joinpath (parent f) name \<noteq> f"
    and "exists (fsys st1) (joinpath (parent f) name)"
  shows "rename_step env (clock (i + length pre)) opts st1 f =
           Inr (st1\<lparr>renames := renames st1 @ [(f, joinpath (parent f) name)],
                    warnings := warnings st1 @ [skip_warning f name]\<rparr>)
       \<and> rename_loop env clock opts i st (pre @ f # post) =
           rename_loop env clock opts (Suc (i + length pre))
             (st1\<lparr>renames := renames st1 @ [(f, joinpath (parent f) name)],
                  warnings := warnings st1 @ [skip_warning f name]\<rparr>) post
       \<and> (\<forall>st' s. rename_loop env clock opts i st (pre @ f # post) = Inr st'
             \<and> f \<notin> set post \<and> (\<forall>g \<in> set post. \<not> is_dir (fsys st1) g) \<and> fsys st1 f = Some s
           \<longrightarrow> fsys st' f = Some s \<and> skip_warning f name \<in> set (warnings st'))"
proof (intro conjI allI impI)
  let ?st2 = "st1\<lparr>renames := renames st1 @ [(f, joinpath (parent f) name)],
                  warnings := warnings st1 @ [skip_warning f name]\<rparr>"
  show "rename_step env (clock (i + length pre)) opts st1 f = Inr ?st2"
    by (rule rename_step_skip [OF assms(1,3,4,5)])
  show step: "rename_loop env clock opts i st (pre @ f # post) =
           rename_loop env clock opts (Suc (i + length pre)) ?st2 post"
    by (rule rename_loop_skip [OF assms])
  fix st' s
  assume h: "rename_loop env clock opts i st (pre @ f # post) = Inr st'
             \<and> f \<notin> set post \<and> (\<forall>g \<in> set post. \<not> is_dir (fsys st1) g) \<and> fsys st1 f = Some s"
  with step have l: "rename_loop env clock opts (Suc (i + length pre)) ?st2 post = Inr st'" by simp
  from h have "\<forall>g \<in> set post. \<not> is_dir (fsys ?st2) g" "f \<notin> set post" "fsys ?st2 f = Some s"
    by simp_all
  from rename_loop_preserves [OF l this] show "fsys st' f = Some s" .
  from rename_loop_warnings [OF l] show "skip_warning f name \<in> set (warnings st')" by auto
qed


text \<open>The sample runs, evaluated.\<close>

lemma collect_two:
  "collect_files env_two fs_two dir_r (file_pattern strip_ones) (recursive strip_ones)
     = Inr [in_r ''a1.txt'', in_r ''a11.txt'']"
  by (simp add: two_defs run_defs)


lemma execute_two:
  "rename_files env_two (\<lambda>i. 0) fs_two dir_r (strip_ones\<lparr>execute := True\<rparr>)
     = Inr \<lparr>renames = [(in_r ''a1.txt'', in_r ''a.txt''), (in_r ''a11.txt'', in_r ''a.txt'')],
            counter = 1, warnings = [''Skipping a11.txt - target exists: a.txt''],
            fsys = fs_two(in_r ''a1.txt'' := None, in_r ''a.txt'' \<mapsto> file_stat)\<rparr>"
  by (simp add: two_defs run_defs)

lemma first_turn_two:
  "rename_loop env_two (\<lambda>i. 0) (strip_ones\<lparr>execute := True\<rparr>) 1
     (initial_state (strip_ones\<lparr>execute := True\<rparr>) fs_two) [in_r ''a1.txt''] = Inr after_first"
  by (simp add: after_first_def two_defs run_defs)

lemma second_name_two:
  "generate_new_name env_two (fsys after_first) 0 (in_r ''a11.txt'') (strip_ones\<lparr>execute := True\<rparr>)
     (number_for (strip_ones\<lparr>execute := True\<rparr>) after_first) = Inr ''a.txt''"
  by (simp add: after_first_def number_for_def two_defs run_defs)

lemma second_target_two:
  "joinpath (parent (in_r ''a11.txt'')) ''a.txt'' = in_r ''a.txt''"
  by (simp add: run_defs)

text \<open>Collecting is sorting the regular files of the walk by their components.\<close>

lemma collect_files_walk:
  "collect_files env fs root_path pat rec
     = (case walk env fs root_path pat rec of
          Inl e \<Rightarrow> Inl e
        | Inr entries \<Rightarrow> Inr (sort_key (path_key env) (filter (is_file fs) entries)))"
  by (simp add: collect_files_def walk_def)

section \<open>The plan\<close>

lemma rename_files_Inr:
  assumes "rename_files env clock fs root_path opts = Inr st"
  obtains files where
    "collect_files env fs root_path (file_pattern opts) (recursive opts) = Inr files"
    "rename_loop env clock opts 1 (initial_state opts fs) files = Inr st"
  using assms by (auto simp: rename_files_def split: sum.splits)

text \<open>
  Claim C3, as stated, fails: with the prefix \<^verbatim>\<open>sub/\<close> the plan of a dry run sends
  \<^verbatim>\<open>/r/a.txt\<close> to \<^verbatim>\<open>/r/sub/a.txt\<close>, whose parent directory is \<^verbatim>\<open>/r/sub\<close> and not \<^verbatim>\<open>/r\<close>.
\<close>

theorem parent_counterexample:
  "map_sum id renames
     (rename_files (env_of [in_r ''a.txt'']) (\<lambda>i. 0) (fs_with [dir_r] [in_r ''a.txt'']) dir_r
        (no_options\<lparr>prefix := ''sub/''\<rparr>))
     = Inr [(Path ''/'' [''r'', ''a.txt''], Path ''/'' [''r'', ''sub'', ''a.txt''])]
   \<and> parent (Path ''/'' [''r'', ''sub'', ''a.txt'']) \<noteq> parent (Path ''/'' [''r'', ''a.txt''])"
  by (simp add: run_defs)

text \<open>
  Claim C3, amended.  Every entry (original path, new path) of the plan returned by
  \<^verbatim>\<open>rename_files\<close> has a new path different from the original one, and the new path is the
  original's parent directory joined with a name \<^verbatim>\<open>generate_new_name\<close> produced for that file.
  When that name is a single path component (not empty, not \<^verbatim>\<open>.\<close>, without a separator) the
  parent directory of the new path is the parent directory of the original.  In general, for a
  name that does not begin with a separator, the parent directory of the new path is that of
  the original exactly when the name has one component once \<^verbatim>\<open>pathlib\<close> has parsed it (empty
  and \<^verbatim>\<open>.\<close> components dropped), or has none while the original's parent directory has
  none either; and a name that begins with a separator is the new path by itself, the
  original's directory being dropped.
\<close>

theorem plan_entries:
  assumes "rename_files env clock fs root_path opts = Inr st"
    and "(old, new) \<in> set (renames st)"
  shows "new \<noteq> old
       \<and> (\<exists>fs' now number name.
             generate_new_name env fs' now old opts number = Inr name
           \<and> new = joinpath (parent old) name
           \<and> (single_component name \<longrightarrow> parent new = parent old)
           \<and> (take 1 name \<noteq> ''/'' \<longrightarrow>
                (parent new = parent old
                 \<longleftrightarrow> length (parse_parts name) = 1
                     \<or> parse_parts name = [] \<and> path_parts (parent old) = []))
           \<and> (take 1 name = ''/'' \<longrightarrow> new = path_of name))"
proof -
  from assms(1) obtain files where
    "rename_loop env clock opts 1 (initial_state opts fs) files = Inr st"
    by (rule rename_files_Inr)
  from rename_loop_made_by [OF this assms(2)] have "made_by env opts (old, new)"
    by (simp add: initial_state_def)
  then obtain fs' now number name where *:
    "new \<noteq> old" "generate_new_name env fs' now old opts number = Inr name"
    "new = joinpath (parent old) name"
    by (auto simp: made_by_def)
  from *(3) have a: "single_component name \<longrightarrow> parent new = parent old"
    by (simp add: parent_joinpath_single)
  from *(3) have b: "take 1 name \<noteq> ''/'' \<longrightarrow>
                (parent new = parent old
                 \<longleftrightarrow> length (parse_parts name) = 1
                     \<or> parse_parts name = [] \<and> path_parts (parent old) = [])"
    using parent_joinpath_relative [of name "parent old"] by blast
  from *(3) have c: "take 1 name = ''/'' \<longrightarrow> new = path_of name"
    by (simp add: joinpath_def)
  from * a b c show ?thesis by blast
qed

theorem plan_entries_witness:
  "rename_files (env_of [in_r ''a.txt'']) (\<lambda>i. 0) (fs_with [dir_r] [in_r ''a.txt'']) dir_r
        (no_options\<lparr>prefix := ''img_''\<rparr>)
     = Inr \<lparr>renames = [(in_r ''a.txt'', in_r ''img_a.txt'')], counter = 1, warnings = [],
            fsys = fs_with [dir_r] [in_r ''a.txt'']\<rparr>
   \<and> in_r ''img_a.txt'' \<noteq> in_r ''a.txt''
   \<and> single_component ''img_a.txt''
   \<and> take 1 ''img_a.txt'' \<noteq> ''/''
   \<and> length (parse_parts ''img_a.txt'') = 1
   \<and> parent (in_r ''img_a.txt'') = parent (in_r ''a.txt'')
   \<and> (\<exists>fs' now number name.
         generate_new_name (env_of [in_r ''a.txt'']) fs' now (in_r ''a.txt'')
           (no_options\<lparr>prefix := ''img_''\<rparr>) number = Inr name
       \<and> in_r ''img_a.txt'' = joinpath (parent (in_r ''a.txt'')) name
       \<and> (single_component name \<longrightarrow> parent (in_r ''img_a.txt'') = parent (in_r ''a.txt''))
       \<and> (take 1 name \<noteq> ''/'' \<longrightarrow>
            (parent (in_r ''img_a.txt'') = parent (in_r ''a.txt'')
             \<longleftrightarrow> length (parse_parts name) = 1
                 \<or> parse_parts name = [] \<and> path_parts (parent (in_r ''a.txt'')) = []))
       \<and> (take 1 name = ''/'' \<longrightarrow> in_r ''img_a.txt'' = path_of name))"
proof -
  have run: "rename_files (env_of [in_r ''a.txt'']) (\<lambda>i. 0) (fs_with [dir_r] [in_r ''a.txt'']) dir_r
        (no_options\<lparr>prefix := ''img_''\<rparr>)
     = Inr \<lparr>renames = [(in_r ''a.txt'', in_r ''img_a.txt'')], counter = 1, warnings = [],
            fsys = fs_with [dir_r] [in_r ''a.txt'']\<rparr>"
    by (simp add: run_defs)
  have mem: "(in_r ''a.txt'', in_r ''img_a.txt'')
      \<in> set (renames \<lparr>renames = [(in_r ''a.txt'', in_r ''img_a.txt'')], counter = 1, warnings = [],
            fsys = fs_with [dir_r] [in_r ''a.txt'']\<rparr>)"
    by simp
  have s: "single_component ''img_a.txt''"
    by (simp add: single_component_def)
  have t: "take 1 ''img_a.txt'' \<noteq> ''/''" by simp
  have l: "length (parse_parts ''img_a.txt'') = 1"
    by (simp add: parse_parts_def)
  have p: "parent (in_r ''img_a.txt'') = parent (in_r ''a.txt'')"
    by (simp add: parent_def in_r_def)
  from plan_entries [OF run mem] have
    ne: "in_r ''img_a.txt'' \<noteq> in_r ''a.txt''"
    and ex: "\<exists>fs' now number name.
         generate_new_name (env_of [in_r ''a.txt'']) fs' now (in_r ''a.txt'')
           (no_options\<lparr>prefix := ''img_''\<rparr>) number = Inr name
       \<and> in_r ''img_a.txt'' = joinpath (parent (in_r ''a.txt'')) name
       \<and> (single_component name \<longrightarrow> parent (in_r ''img_a.txt'') = parent (in_r ''a.txt''))
       \<and> (take 1 name \<noteq> ''/'' \<longrightarrow>
            (parent (in_r ''img_a.txt'') = parent (in_r ''a.txt'')
             \<longleftrightarrow> length (parse_parts name) = 1
                 \<or> parse_parts name = [] \<and> path_parts (parent (in_r ''a.txt'')) = []))
       \<and> (take 1 name = ''/'' \<longrightarrow> in_r ''img_a.txt'' = path_of name)"
    by blast+
  show ?thesis by (intro conjI run ne s t l p ex)
qed

text \<open>
  A name with a separator need not leave the directory: the prefix \<^verbatim>\<open>./x_\<close> sends
  \<^verbatim>\<open>/r/a.txt\<close> to \<^verbatim>\<open>/r/x_a.txt\<close>, and an absolute prefix drops the directory.
\<close>

lemma dot_prefix_same_directory:
  "map_sum id renames
     (rename_files (env_of [in_r ''a.txt'']) (\<lambda>i. 0) (fs_with [dir_r] [in_r ''a.txt'']) dir_r
        (no_options\<lparr>prefix := ''./x_''\<rparr>))
     = Inr [(Path ''/'' [''r'', ''a.txt''], Path ''/'' [''r'', ''x_a.txt''])]
   \<and> map_sum id renames
     (rename_files (env_of [in_r ''a.txt'']) (\<lambda>i. 0) (fs_with [dir_r] [in_r ''a.txt'']) dir_r
        (no_options\<lparr>prefix := ''/t/''\<rparr>))
     = Inr [(Path ''/'' [''r'', ''a.txt''], Path ''/'' [''t'', ''a.txt''])]"
  by (simp add: run_defs)



section \<open>Conflicts in execute mode\<close>



text \<open>
  Claim C10.  In execute mode a file whose rename is skipped because its destination exists
  is all the same in the list \<^verbatim>\<open>rename_files\<close> returns, the entry being appended before the
  conflict is looked for; the file itself is still under its old name.  What \<^verbatim>\<open>main\<close> prints
  under \<^verbatim>\<open>RENAMED\<close> therefore lists it, and the total counts it.
\<close>

theorem skipped_file_still_listed:
  assumes "execute opts"
    and "collect_files env fs root_path (file_pattern opts) (recursive opts) = Inr (pre @ f # post)"
    and "rename_loop env clock opts 1 (initial_state opts fs) pre = Inr st1"
    and "generate_new_name env (fsys st1) (clock (1 + length pre)) f opts (number_for opts st1) = Inr name"
    and "joinpath (parent f) name \<noteq> f"
    and "exists (fsys st1) (joinpath (parent f) name)"
    and "rename_files env clock fs root_path opts = Inr st'"
  shows "(f, joinpath (parent f) name) \<in> set (renames st')
       \<and> skip_warning f name \<in> set (warnings st')
       \<and> (\<forall>s. f \<notin> set post \<and> (\<forall>g \<in> set post. \<not> is_dir (fsys st1) g) \<and> fsys st1 f = Some s
              \<longrightarrow> fsys st' f = Some s)
       \<and> report opts root_path (renames st') =
           [[], ''RENAMED'', replicate 60 CHR ''='']
           @ concat (map (report_entry root_path) (renames st'))
           @ [''Total: '' @ str_nat (length (renames st')) @ '' file(s)'']
       \<and> set (report_entry root_path (f, joinpath (parent f) name))
           \<subseteq> set (report opts root_path (renames st'))"
proof -
  let ?q = "joinpath (parent f) name"
  let ?st2 = "st1\<lparr>renames := renames st1 @ [(f, ?q)], warnings := warnings st1 @ [skip_warning f name]\<rparr>"
  from assms(7) have run: "rename_loop env clock opts 1 (initial_state opts fs) (pre @ f # post) = Inr st'"
    by (simp add: rename_files_def assms(2))
  note T = rename_loop_skip_frame [OF assms(1,3,4,5,6), of post]
  from T run have l: "rename_loop env clock opts (Suc (1 + length pre)) ?st2 post = Inr st'"
    by simp
  from rename_loop_renames [OF l] have mem: "(f, ?q) \<in> set (renames st')" by auto
  from rename_loop_warnings [OF l] have warn: "skip_warning f name \<in> set (warnings st')" by auto
  from T run have keep: "\<forall>s. f \<notin> set post \<and> (\<forall>g \<in> set post. \<not> is_dir (fsys st1) g) \<and> fsys st1 f = Some s
              \<longrightarrow> fsys st' f = Some s"
    by blast
  from mem have ne: "renames st' \<noteq> []" by auto
  have rep: "report opts root_path (renames st') =
           [[], ''RENAMED'', replicate 60 CHR ''='']
           @ concat (map (report_entry root_path) (renames st'))
           @ [''Total: '' @ str_nat (length (renames st')) @ '' file(s)'']"
    using ne assms(1) by (simp add: report_def)
  have "set (report_entry root_path (f, ?q)) \<subseteq> set (concat (map (report_entry root_path) (renames st')))"
    using mem by auto
  then have sub: "set (report_entry root_path (f, ?q)) \<subseteq> set (report opts root_path (renames st'))"
    unfolding rep by auto
  from mem warn keep rep sub show ?thesis by blast
qed

theorem skipped_file_still_listed_witness:
  "execute (strip_ones\<lparr>execute := True\<rparr>)
   \<and> rename_files env_two (\<lambda>i. 0) fs_two dir_r (strip_ones\<lparr>execute := True\<rparr>)
     = Inr \<lparr>renames = [(in_r ''a1.txt'', in_r ''a.txt''), (in_r ''a11.txt'', in_r ''a.txt'')],
            counter = 1, warnings = [''Skipping a11.txt - target exists: a.txt''],
            fsys = fs_two(in_r ''a1.txt'' := None, in_r ''a.txt'' \<mapsto> file_stat)\<rparr>
   \<and> fsys after_first (in_r ''a11.txt'') = Some file_stat
   \<and> (fs_two(in_r ''a1.txt'' := None, in_r ''a.txt'' \<mapsto> file_stat)) (in_r ''a11.txt'') = Some file_stat
   \<and> (in_r ''a11.txt'', in_r ''a.txt'')
       \<in> set [(in_r ''a1.txt'', in_r ''a.txt''), (in_r ''a11.txt'', in_r ''a.txt'')]
   \<and> report (strip_ones\<lparr>execute := True\<rparr>) dir_r
        [(in_r ''a1.txt'', in_r ''a.txt''), (in_r ''a11.txt'', in_r ''a.txt'')]
     = [[], ''RENAMED'', replicate 60 CHR ''='',
        ''a1.txt'', ''  -> a.txt'', [],
        ''a11.txt'', ''  -> a.txt'', [],
        ''Total: 2 file(s)'']"
proof -
  let ?o = "strip_ones\<lparr>execute := True\<rparr>"
  let ?plan = "[(in_r ''a1.txt'', in_r ''a.txt''), (in_r ''a11.txt'', in_r ''a.txt'')]"
  have x: "execute ?o" by simp
  have c: "collect_files env_two fs_two dir_r (file_pattern ?o) (recursive ?o)
             = Inr ([in_r ''a1.txt''] @ in_r ''a11.txt'' # [])"
    using collect_two by simp
  have g: "generate_new_name env_two (fsys after_first) ((\<lambda>i. 0) (1 + length [in_r ''a1.txt'']))
             (in_r ''a11.txt'') ?o (number_for ?o after_first) = Inr ''a.txt''"
    using second_name_two by simp
  have ne: "joinpath (parent (in_r ''a11.txt'')) ''a.txt'' \<noteq> in_r ''a11.txt''"
    unfolding second_target_two by (simp add: in_r_def)
  have ex: "exists (fsys after_first) (joinpath (parent (in_r ''a11.txt'')) ''a.txt'')"
    by (simp add: second_target_two after_first_def exists_def)
  have f3: "fsys after_first (in_r ''a11.txt'') = Some file_stat"
    by (simp add: after_first_def fs_two_def fs_with_def in_r_def)
  note T = skipped_file_still_listed [OF x c first_turn_two g ne ex execute_two]
  from T have m: "(in_r ''a11.txt'', in_r ''a.txt'') \<in> set ?plan"
    by (simp add: second_target_two)
  from T f3 have k: "(fs_two(in_r ''a1.txt'' := None, in_r ''a.txt'' \<mapsto> file_stat)) (in_r ''a11.txt'') = Some file_stat"
    by simp
  from T have "report ?o dir_r ?plan =
           [[], ''RENAMED'', replicate 60 CHR ''='']
           @ concat (map (report_entry dir_r) ?plan)
           @ [''Total: '' @ str_nat (length ?plan) @ '' file(s)'']"
    by simp
  then have r: "report ?o dir_r ?plan
     = [[], ''RENAMED'', replicate 60 CHR ''='',
        ''a1.txt'', ''  -> a.txt'', [],
        ''a11.txt'', ''  -> a.txt'', [],
        ''Total: 2 file(s)'']"
    by (simp add: report_entry_def relative_to_def path_str_def path_name_def dir_r_def in_r_def
        str_nat.simps digit_def)
  from x execute_two f3 k m r show ?thesis by blast
qed

section \<open>The counter after a conflict\<close>

text \<open>
  An executing run and a dry run over the same files compute the same names as long as both
  counters agree, and they do unless a conflict occurs while numbering is on: a run that
  executes without numbering, or without a skip, returns the plan of the dry run.
\<close>

lemma get_file_date_local:
  "fs p = fs' p \<Longrightarrow> get_file_date env fs now p dt = get_file_date env fs' now p dt"
  by (simp add: get_file_date_def)

lemma generate_new_name_local:
  assumes "fs p = fs' p"
  shows "generate_new_name env fs now p opts n = generate_new_name env fs' now p opts n"
  using get_file_date_local [of fs p fs' env now] assms
  by (simp add: generate_new_name_def Let_def cong: option.case_cong sum.case_cong if_cong)

lemma generate_new_name_execute:
  "generate_new_name env fs now p (opts\<lparr>execute := b\<rparr>) n = generate_new_name env fs now p opts n"
  by (simp add: generate_new_name_def Let_def cong: option.case_cong sum.case_cong if_cong)

lemma rename_step_simulation:
  assumes x: "execute opts"
    and se: "rename_step env now opts se f = Inr se'"
    and inv: "renames sd = renames se" "counter sd = counter se" "fsys se f = fsys sd f"
    and noskip: "\<not> numbering opts \<or> warnings se' = warnings se"
  shows "\<exists>sd'. rename_step env now (opts\<lparr>execute := False\<rparr>) sd f = Inr sd'
           \<and> renames sd' = renames se' \<and> counter sd' = counter se' \<and> fsys sd' = fsys sd"
proof -
  let ?d = "opts\<lparr>execute := False\<rparr>"
  have nf: "number_for ?d sd = number_for opts se"
    by (simp add: number_for_def inv(2))
  have gen: "generate_new_name env (fsys sd) now f ?d (number_for ?d sd)
           = generate_new_name env (fsys se) now f opts (number_for opts se)"
    unfolding nf generate_new_name_execute by (rule generate_new_name_local) (simp add: inv(3))
  have nd: "\<not> execute ?d" by simp
  from se show ?thesis
  proof (cases rule: rename_step_cases)
    case (unchanged name)
    from rename_step_unchanged [of env sd now f ?d name] gen unchanged(1,2)
    have "rename_step env now ?d sd f = Inr (advance ?d sd)" by simp
    with unchanged(3) inv show ?thesis by (simp add: advance_def)
  next
    case (planned name)
    with x show ?thesis by simp
  next
    case (skipped name)
    from rename_step_dry [OF nd, of env sd now f name] gen skipped(1,2)
    have "rename_step env now ?d sd f =
            Inr (advance ?d (sd\<lparr>renames := renames sd @ [(f, joinpath (parent f) name)]\<rparr>))"
      by simp
    moreover from skipped(5) noskip have "\<not> numbering opts" by auto
    ultimately show ?thesis using skipped(5) inv by (simp add: advance_def)
  next
    case (renamed name fs')
    from rename_step_dry [OF nd, of env sd now f name] gen renamed(1,2)
    have "rename_step env now ?d sd f =
            Inr (advance ?d (sd\<lparr>renames := renames sd @ [(f, joinpath (parent f) name)]\<rparr>))"
      by simp
    with renamed(6) inv show ?thesis by (simp add: advance_def)
  qed
qed

lemma rename_loop_simulation:
  assumes x: "execute opts"
  shows "rename_loop env clock opts i se files = Inr se' \<Longrightarrow>
         renames sd = renames se \<Longrightarrow> counter sd = counter se \<Longrightarrow>
         \<forall>g \<in> set files. fsys se g = fsys sd g \<and> is_file (fsys se) g \<Longrightarrow>
         distinct files \<Longrightarrow>
         \<not> numbering opts \<or> warnings se' = warnings se \<Longrightarrow>
         \<exists>sd'. rename_loop env clock (opts\<lparr>execute := False\<rparr>) i sd files = Inr sd'
                \<and> renames sd' = renames se' \<and> counter sd' = counter se' \<and> fsys sd' = fsys sd"
proof (induction files arbitrary: i se sd)
  case Nil
  then show ?case by simp
next
  case (Cons f files)
  from Cons.prems(1) obtain se1 where s: "rename_step env (clock i) opts se f = Inr se1"
    and l: "rename_loop env clock opts (Suc i) se1 files = Inr se'"
    by (auto split: sum.splits)
  from rename_step_warnings [OF s] rename_loop_warnings [OF l] Cons.prems(6)
  have ns1: "\<not> numbering opts \<or> warnings se1 = warnings se"
    and ns2: "\<not> numbering opts \<or> warnings se' = warnings se1"
    by auto
  from Cons.prems(4) have ff: "fsys se f = fsys sd f" and isf: "is_file (fsys se) f" by simp_all
  from rename_step_simulation [OF x s Cons.prems(2,3) ff ns1]
  obtain sd1 where d: "rename_step env (clock i) (opts\<lparr>execute := False\<rparr>) sd f = Inr sd1"
    and r1: "renames sd1 = renames se1" and c1: "counter sd1 = counter se1"
    and f1: "fsys sd1 = fsys sd"
    by blast
  from isf have nd: "\<not> is_dir (fsys se) f"
    by (auto simp: is_file_def is_dir_def split: option.splits)
  have inv: "\<forall>g \<in> set files. fsys se1 g = fsys sd1 g \<and> is_file (fsys se1) g"
  proof
    fix g assume g: "g \<in> set files"
    with Cons.prems(4,5) have "g \<noteq> f" "fsys se g = fsys sd g" "is_file (fsys se) g" by auto
    moreover from this obtain t where "fsys se g = Some t"
      by (auto simp: is_file_def split: option.splits)
    moreover from rename_step_preserves [OF s nd \<open>g \<noteq> f\<close> this] have "fsys se1 g = Some t" .
    ultimately show "fsys se1 g = fsys sd1 g \<and> is_file (fsys se1) g"
      by (simp add: f1 is_file_def)
  qed
  from Cons.prems(5) have dist: "distinct files" by simp
  from Cons.IH [OF l r1 c1 inv dist ns2]
  obtain sd' where "rename_loop env clock (opts\<lparr>execute := False\<rparr>) (Suc i) sd1 files = Inr sd'"
    "renames sd' = renames se'" "counter sd' = counter se'" "fsys sd' = fsys sd1"
    by blast
  with d f1 show ?case by simp
qed

lemma execute_agrees_with_dry_run:
  assumes "execute opts"
    and "rename_files env clock fs root_path opts = Inr se"
    and "walk env fs root_path (file_pattern opts) (recursive opts) = Inr entries"
    and "distinct entries"
    and "\<not> numbering opts \<or> warnings se = []"
  shows "\<exists>sd. rename_files env clock fs root_path (opts\<lparr>execute := False\<rparr>) = Inr sd
              \<and> renames sd = renames se \<and> counter sd = counter se \<and> fsys sd = fs"
proof -
  let ?files = "sort_key (path_key env) (filter (is_file fs) entries)"
  let ?d = "opts\<lparr>execute := False\<rparr>"
  have col: "collect_files env fs root_path (file_pattern opts) (recursive opts) = Inr ?files"
    by (simp add: collect_files_walk assms(3))
  from assms(2) have run: "rename_loop env clock opts 1 (initial_state opts fs) ?files = Inr se"
    by (simp add: rename_files_def col)
  have i1: "renames (initial_state ?d fs) = renames (initial_state opts fs)"
    "counter (initial_state ?d fs) = counter (initial_state opts fs)"
    by (simp_all add: initial_state_def)
  have i2: "\<forall>g \<in> set ?files. fsys (initial_state opts fs) g = fsys (initial_state ?d fs) g
              \<and> is_file (fsys (initial_state opts fs)) g"
    by (auto simp: initial_state_def)
  have i3: "distinct ?files"
    using assms(4) by simp
  have i4: "\<not> numbering opts \<or> warnings se = warnings (initial_state opts fs)"
    using assms(5) by (simp add: initial_state_def)
  from rename_loop_simulation [OF assms(1) run i1 i2 i3 i4]
  obtain sd where "rename_loop env clock ?d 1 (initial_state ?d fs) ?files = Inr sd"
    "renames sd = renames se" "counter sd = counter se" "fsys sd = fsys (initial_state ?d fs)"
    by blast
  moreover have "collect_files env fs root_path (file_pattern ?d) (recursive ?d) = Inr ?files"
    using col by simp
  ultimately show ?thesis
    by (auto simp: rename_files_def initial_state_def)
qed

text \<open>
  Claim C1 against the code.  Directory \<^verbatim>\<open>/r\<close> holds \<^verbatim>\<open>a.txt\<close> and \<^verbatim>\<open>a_001.txt\<close>; numbering is
  on (append mode, start 1, width 3) and the run executes.  The destination of \<^verbatim>\<open>a.txt\<close>
  exists, the turn is left through \<^verbatim>\<open>continue\<close>, and the counter does not move: the second
  file is given the number 1 again and the run ends with the counter at 2, where the claim
  gives the second file the number 2 (\<^verbatim>\<open>a_001_002.txt\<close>) and ends at 3.  In a dry run, and
  in every turn that is not a conflict, the counter does move (\<open>rename_loop_dry_frame\<close>,
  \<open>rename_step_cases\<close>).
\<close>

theorem counter_not_advanced_on_conflict:
  "collect_files env_num fs_num dir_r (file_pattern numbered) (recursive numbered)
     = Inr [in_r ''a.txt'', in_r ''a_001.txt'']
   \<and> rename_files env_num (\<lambda>i. 0) fs_num dir_r (numbered\<lparr>execute := True\<rparr>)
     = Inr \<lparr>renames = [(in_r ''a.txt'', in_r ''a_001.txt''),
                       (in_r ''a_001.txt'', in_r ''a_001_001.txt'')],
            counter = 2,
            warnings = [''Skipping a.txt - target exists: a_001.txt''],
            fsys = fs_num(in_r ''a_001.txt'' := None, in_r ''a_001_001.txt'' \<mapsto> file_stat)\<rparr>
   \<and> number_start numbered + 2 = 3
   \<and> planned_name env_num (\<lambda>i. 0) fs_num numbered [in_r ''a.txt'', in_r ''a_001.txt''] 1
     = Inr ''a_001_002.txt''"
  by (simp add: planned_name_def num_defs run_defs)

text \<open>
  Claim C5 against the code.  On the same input the dry run announces \<^verbatim>\<open>a_001_002.txt\<close> for
  the second file and the executing run returns, and performs, \<^verbatim>\<open>a_001_001.txt\<close>: the two
  lists differ.  That a dry run changes nothing in the filesystem holds
  (\<open>rename_loop_dry_frame\<close>), and so does the equality of the two lists whenever numbering
  is off or the executing run meets no conflict (\<open>execute_agrees_with_dry_run\<close>).
\<close>

theorem preview_differs_from_execution:
  "map_sum id renames (rename_files env_num (\<lambda>i. 0) fs_num dir_r numbered)
     = Inr [(in_r ''a.txt'', in_r ''a_001.txt''), (in_r ''a_001.txt'', in_r ''a_001_002.txt'')]
   \<and> map_sum id renames (rename_files env_num (\<lambda>i. 0) fs_num dir_r (numbered\<lparr>execute := True\<rparr>))
     = Inr [(in_r ''a.txt'', in_r ''a_001.txt''), (in_r ''a_001.txt'', in_r ''a_001_001.txt'')]"
  by (simp add: num_defs run_defs)

section \<open>The file collector\<close>

text \<open>Paths under one root are told apart by their keys when the decoding is one-to-one.\<close>

lemma path_key_inj_on:
  assumes "inj (fsdecode env)" and "\<forall>p \<in> S. path_root p = r"
  shows "inj_on (path_key env) S"
proof (rule inj_onI)
  fix p q assume p: "p \<in> S" and q: "q \<in> S" and k: "path_key env p = path_key env q"
  from assms(1) have "inj (map (fsdecode env))" by simp
  with k have "cparts p = cparts q" by (simp add: path_key_def inj_eq)
  moreover from p q assms(2) have "path_root p = path_root q" by simp
  ultimately have "path_parts p = path_parts q" by (simp add: cparts_def)
  with \<open>path_root p = path_root q\<close> show "p = q" by (simp add: path.expand)
qed

text \<open>Sorting forgets the order the elements came in, when their keys tell them apart.\<close>

lemma sort_key_mset_unique:
  assumes "mset ys = mset xs" and "inj_on f (set xs)"
  shows "sort_key f ys = sort_key f xs"
proof -
  from assms(1) have "set ys = set xs" by (rule mset_eq_setD)
  with assms(2) have i: "inj_on f (set ys)" by simp
  have m: "mset ys = mset (sort_key f xs)" using assms(1) by simp
  have s: "sorted (map f (sort_key f xs))" by simp
  from m i s show ?thesis by (rule sort_key_inj_key_eq)
qed

text \<open>
  Claim C8, as stated, fails.  For the order: with \<^verbatim>\<open>/r/a.b\<close> and \<^verbatim>\<open>/r/a/c\<close> the collector
  returns \<^verbatim>\<open>/r/a/c\<close> first, although as a string \<^verbatim>\<open>/r/a.b\<close> is the smaller full path, a dot
  sorting before the separator.  And not every pattern gives a list: without the recursive
  flag the empty pattern raises \<^verbatim>\<open>ValueError\<close>, and with or without it a pattern that begins
  with a separator raises \<^verbatim>\<open>NotImplementedError\<close>.
\<close>

theorem string_order_counterexample:
  "collect_files (env_of listing_tree) fs_tree dir_r ''*'' True
     = Inr [Path ''/'' [''r'', ''a'', ''c''], in_r ''a.b'']
   \<and> map path_str [Path ''/'' [''r'', ''a'', ''c''], in_r ''a.b''] = [''/r/a/c'', ''/r/a.b'']
   \<and> ''/r/a.b'' < ''/r/a/c''
   \<and> \<not> sorted (map path_str [Path ''/'' [''r'', ''a'', ''c''], in_r ''a.b''])
   \<and> \<not> sorted (map (fsdecode (env_of listing_tree) \<circ> path_str)
                  [Path ''/'' [''r'', ''a'', ''c''], in_r ''a.b''])
   \<and> collect_files (env_of listing_tree) fs_tree dir_r '''' False = Inl ValueError
   \<and> collect_files (env_of listing_tree) fs_tree dir_r ''/r/*'' False = Inl NotImplementedError
   \<and> collect_files (env_of listing_tree) fs_tree dir_r ''/r/*'' True = Inl NotImplementedError"
  by (simp add: fs_tree_def listing_tree_def path_str_def run_defs)

text \<open>
  Claim C8, amended.  For every root directory, pattern and recursive flag for which the walk
  of the directory raises no exception, \<^verbatim>\<open>collect_files\<close> returns exactly the filesystem
  entries that are regular files (directories and symbolic links to directories excluded,
  \<^verbatim>\<open>stat\<close> reporting such a link as a directory) matching the pattern, that is those the walk
  yields for it, each as often as it is yielded, sorted in ascending order of their sequences
  of path components, the components compared as Python compares strings, code point by code
  point: the order of pathlib paths, not the lexicographic order of the full path strings.
  Where the walk raises, \<^verbatim>\<open>collect_files\<close> raises the same exception: \<^verbatim>\<open>ValueError\<close> for the
  empty pattern without the recursive flag, \<^verbatim>\<open>NotImplementedError\<close> for a pattern that begins
  with a separator.  The list does not depend on the order in which the walk yields the
  entries: two walks that yield the same entries equally often give the same list, the
  decoding of names being one-to-one and the entries having the root of the directory walked;
  so the list and therefore the numbering are the same on every run over the same directory
  contents.
\<close>

theorem collect_files_sorted:
  "(pat = [] \<and> \<not> rec \<longrightarrow> collect_files env fs root_path pat rec = Inl ValueError)
   \<and> (take 1 pat = ''/'' \<longrightarrow> collect_files env fs root_path pat rec = Inl NotImplementedError)
   \<and> (\<forall>e. walk env fs root_path pat rec = Inl e
          \<longrightarrow> collect_files env fs root_path pat rec = Inl e)
   \<and> (\<forall>entries. walk env fs root_path pat rec = Inr entries \<longrightarrow>
        (\<exists>files. collect_files env fs root_path pat rec = Inr files
           \<and> set files = {f \<in> set entries. is_file fs f}
           \<and> mset files = filter_mset (is_file fs) (mset entries)
           \<and> sorted (map (path_key env) files)
           \<and> (\<forall>env' entries'.
                 walk env' fs root_path pat rec = Inr entries'
                 \<and> mset entries' = mset entries
                 \<and> fsdecode env' = fsdecode env \<and> inj (fsdecode env)
                 \<and> (\<forall>p \<in> set entries. path_root p = path_root root_path)
               \<longrightarrow> collect_files env' fs root_path pat rec = Inr files)))"
proof (intro conjI allI impI)
  assume "pat = [] \<and> \<not> rec"
  then show "collect_files env fs root_path pat rec = Inl ValueError"
    by (simp add: collect_files_def path_glob_def)
next
  assume "take 1 pat = ''/''"
  then show "collect_files env fs root_path pat rec = Inl NotImplementedError"
    by (auto simp: collect_files_def path_glob_def path_rglob_def)
next
  fix e assume "walk env fs root_path pat rec = Inl e"
  then show "collect_files env fs root_path pat rec = Inl e"
    by (simp add: collect_files_walk)
next
  fix entries assume w: "walk env fs root_path pat rec = Inr entries"
  let ?files = "sort_key (path_key env) (filter (is_file fs) entries)"
  have c: "collect_files env fs root_path pat rec = Inr ?files"
    by (simp add: collect_files_walk w)
  have s: "set ?files = {f \<in> set entries. is_file fs f}" by auto
  have m: "mset ?files = filter_mset (is_file fs) (mset entries)" by simp
  have o: "sorted (map (path_key env) ?files)" by simp
  have d: "collect_files env' fs root_path pat rec = Inr ?files"
    if h: "walk env' fs root_path pat rec = Inr entries'
           \<and> mset entries' = mset entries
           \<and> fsdecode env' = fsdecode env \<and> inj (fsdecode env)
           \<and> (\<forall>p \<in> set entries. path_root p = path_root root_path)" for env' entries'
  proof -
    from h have k: "path_key env' = path_key env" by (simp add: path_key_def fun_eq_iff)
    from h have "inj_on (path_key env) (set entries)"
      by (intro path_key_inj_on [where r = "path_root root_path"]) simp_all
    then have i: "inj_on (path_key env) (set (filter (is_file fs) entries))"
      by (rule inj_on_subset) auto
    from h have "mset (filter (is_file fs) entries') = mset (filter (is_file fs) entries)"
      by simp
    from sort_key_mset_unique [OF this i]
    show ?thesis using h by (simp add: collect_files_walk k)
  qed
  from c s m o d
  show "\<exists>files. collect_files env fs root_path pat rec = Inr files
           \<and> set files = {f \<in> set entries. is_file fs f}
           \<and> mset files = filter_mset (is_file fs) (mset entries)
           \<and> sorted (map (path_key env) files)
           \<and> (\<forall>env' entries'.
                 walk env' fs root_path pat rec = Inr entries'
                 \<and> mset entries' = mset entries
                 \<and> fsdecode env' = fsdecode env \<and> inj (fsdecode env)
                 \<and> (\<forall>p \<in> set entries. path_root p = path_root root_path)
               \<longrightarrow> collect_files env' fs root_path pat rec = Inr files)"
    by blast
qed

theorem collect_files_sorted_witness:
  "collect_files (env_of listing_tree) fs_tree dir_r '''' False = Inl ValueError
   \<and> collect_files (env_of listing_tree) fs_tree dir_r ''/r/*'' True = Inl NotImplementedError
   \<and> walk ((env_of listing_tree)\<lparr>rglob := (\<lambda>fs p pat. Inl NotADirectoryError)\<rparr>)
        fs_tree dir_r ''*'' True = Inl NotADirectoryError
   \<and> collect_files ((env_of listing_tree)\<lparr>rglob := (\<lambda>fs p pat. Inl NotADirectoryError)\<rparr>)
        fs_tree dir_r ''*'' True = Inl NotADirectoryError
   \<and> walk (env_of listing_tree) fs_tree dir_r ''*'' True = Inr listing_tree
   \<and> walk (env_of (rev listing_tree)) fs_tree dir_r ''*'' True = Inr (rev listing_tree)
   \<and> mset (rev listing_tree) = mset listing_tree
   \<and> fsdecode (env_of (rev listing_tree)) = fsdecode (env_of listing_tree)
   \<and> inj (fsdecode (env_of listing_tree))
   \<and> map path_root listing_tree = [''/'', ''/'', ''/''] \<and> path_root dir_r = ''/''
   \<and> collect_files (env_of listing_tree) fs_tree dir_r ''*'' True
     = Inr [Path ''/'' [''r'', ''a'', ''c''], in_r ''a.b'']
   \<and> collect_files (env_of (rev listing_tree)) fs_tree dir_r ''*'' True
     = Inr [Path ''/'' [''r'', ''a'', ''c''], in_r ''a.b'']
   \<and> set [Path ''/'' [''r'', ''a'', ''c''], in_r ''a.b''] = {f \<in> set listing_tree. is_file fs_tree f}
   \<and> sorted (map (path_key (env_of listing_tree)) [Path ''/'' [''r'', ''a'', ''c''], in_r ''a.b''])"
proof -
  let ?e = "env_of listing_tree"
  let ?bad = "(env_of listing_tree)\<lparr>rglob := (\<lambda>fs p pat. Inl NotADirectoryError)\<rparr>"
  let ?out = "[Path ''/'' [''r'', ''a'', ''c''], in_r ''a.b'']"
  have w: "walk ?e fs_tree dir_r ''*'' True = Inr listing_tree"
    and w': "walk (env_of (rev listing_tree)) fs_tree dir_r ''*'' True = Inr (rev listing_tree)"
    and wb: "walk ?bad fs_tree dir_r ''*'' True = Inl NotADirectoryError"
    by (simp_all add: walk_def path_rglob_def env_of_def)
  have ms: "mset (rev listing_tree) = mset listing_tree" by simp
  have fd: "fsdecode (env_of (rev listing_tree)) = fsdecode ?e" by (simp add: env_of_def)
  have ij: "inj (fsdecode ?e)"
    by (simp add: env_of_def inj_on_def)
  have rm: "map path_root listing_tree = [''/'', ''/'', ''/'']" and rr: "path_root dir_r = ''/''"
    by (simp_all add: listing_tree_def in_r_def dir_r_def)
  have rt: "\<forall>p \<in> set listing_tree. path_root p = path_root dir_r"
    by (simp add: listing_tree_def in_r_def dir_r_def)
  have e: "collect_files ?e fs_tree dir_r ''*'' True = Inr ?out"
    by (simp add: fs_tree_def listing_tree_def run_defs)
  have p1: "'''' = [] \<and> \<not> False" by simp
  have p2: "take 1 ''/r/*'' = ''/''" by simp
  from collect_files_sorted [of "''''" False ?e fs_tree dir_r] p1
  have a: "collect_files ?e fs_tree dir_r '''' False = Inl ValueError" by blast
  from collect_files_sorted [of "''/r/*''" True ?e fs_tree dir_r] p2
  have b: "collect_files ?e fs_tree dir_r ''/r/*'' True = Inl NotImplementedError" by blast
  from collect_files_sorted [of "''*''" True ?bad fs_tree dir_r] wb
  have c: "collect_files ?bad fs_tree dir_r ''*'' True = Inl NotADirectoryError" by blast
  from collect_files_sorted [of "''*''" True ?e fs_tree dir_r] w
  obtain files where f: "collect_files ?e fs_tree dir_r ''*'' True = Inr files"
    and s: "set files = {f \<in> set listing_tree. is_file fs_tree f}"
    and o: "sorted (map (path_key ?e) files)"
    and d: "\<forall>env' entries'.
                 walk env' fs_tree dir_r ''*'' True = Inr entries'
                 \<and> mset entries' = mset listing_tree
                 \<and> fsdecode env' = fsdecode ?e \<and> inj (fsdecode ?e)
                 \<and> (\<forall>p \<in> set listing_tree. path_root p = path_root dir_r)
               \<longrightarrow> collect_files env' fs_tree dir_r ''*'' True = Inr files"
    by blast
  from f e have fo: "files = ?out" by simp
  from d [rule_format, of "env_of (rev listing_tree)" "rev listing_tree"] w' ms fd ij rt
  have r: "collect_files (env_of (rev listing_tree)) fs_tree dir_r ''*'' True = Inr ?out"
    unfolding fo by blast
  show ?thesis
    by (intro conjI a b wb c w w' ms fd ij rm rr e r s [unfolded fo] o [unfolded fo])
qed

end
